theory Spec2Isabelle
  imports Complex_Main "HOL-Library.AList" "HOL-Library.Sublist" "HOL-Library.Multiset"
begin

section \<open>JavaScript values carried by the records\<close>

text \<open>
  The family-tree widget reads flat event records from a JSON document.  A field
  of a record is absent (\<open>undefined\<close>), \<open>null\<close>, a number or a string.  Numbers are
  restricted to integer values (the anchor ids, parent ids, years and day counts of
  the data), as far as a double holds them exactly; strings are lists of characters.
\<close>

datatype jsval = JUndefined | JNull | JNum int | JStr string

text \<open>JavaScript truthiness: \<open>undefined\<close>, \<open>null\<close>, \<open>0\<close> and \<open>''\<close> are falsy.\<close>

fun truthy :: "jsval \<Rightarrow> bool" where
  "truthy JUndefined = False"
| "truthy JNull = False"
| "truthy (JNum n) = (n \<noteq> 0)"
| "truthy (JStr s) = (s \<noteq> [])"

definition digitChar :: "nat \<Rightarrow> char" where
  "digitChar d = ''0123456789'' ! d"

fun natToString :: "nat \<Rightarrow> string" where
  "natToString n =
     (if n < 10 then [digitChar n] else natToString (n div 10) @ [digitChar (n mod 10)])"

declare natToString.simps [simp del]

definition intToString :: "int \<Rightarrow> string" where
  "intToString i = (if i < 0 then CHR ''-'' # natToString (nat (- i)) else natToString (nat i))"

text \<open>
  \<open>String(v)\<close>.  An integer below \<open>10^21\<close> in magnitude prints as its decimal digits.
\<close>

fun String :: "jsval \<Rightarrow> string" where
  "String JUndefined = ''undefined''"
| "String JNull = ''null''"
| "String (JNum n) = intToString n"
| "String (JStr s) = s"

section \<open>The built-in \<open>parseFloat\<close>\<close>

text \<open>
  \<open>parseFloat\<close> converts its argument to a string, skips leading white space and reads
  the longest prefix that is a decimal literal: an optional sign, then \<open>Infinity\<close> or
  digits with an optional fraction and an optional exponent.  The value read is kept
  as an exact rational; the rounding to a double is not modelled.
\<close>

datatype jsnum = NaN | PosInf | NegInf | Fin rat

definition isDigit :: "char \<Rightarrow> bool" where
  "isDigit c = (c \<in> set ''0123456789'')"

definition digitVal :: "char \<Rightarrow> nat" where
  "digitVal c = length (takeWhile (\<lambda>d. d \<noteq> c) ''0123456789'')"

definition digitsVal :: "string \<Rightarrow> nat" where
  "digitsVal ds = foldl (\<lambda>a c. 10 * a + digitVal c) 0 ds"

definition isWhiteSpace :: "char \<Rightarrow> bool" where
  "isWhiteSpace c = (c \<in> set [CHR '' '', CHR 0x09, CHR 0x0A, CHR 0x0B, CHR 0x0C, CHR 0x0D])"

definition exponentPart :: "string \<Rightarrow> int" where
  "exponentPart r =
     (case r of
        [] \<Rightarrow> 0
      | c # r1 \<Rightarrow>
          if c = CHR ''e'' \<or> c = CHR ''E'' then
            (case r1 of
               [] \<Rightarrow> 0
             | s # r2 \<Rightarrow>
                 if s = CHR ''-'' then
                   (if takeWhile isDigit r2 = [] then 0 else - int (digitsVal (takeWhile isDigit r2)))
                 else if s = CHR ''+'' then int (digitsVal (takeWhile isDigit r2))
                 else int (digitsVal (takeWhile isDigit r1)))
          else 0)"

definition pow10 :: "int \<Rightarrow> rat" where
  "pow10 e = (if e < 0 then 1 / 10 ^ nat (- e) else 10 ^ nat e)"

definition unsignedLiteral :: "string \<Rightarrow> rat option" where
  "unsignedLiteral r =
     (let intDigits = takeWhile isDigit r;
          r2 = dropWhile isDigit r;
          fracDigits = (case r2 of [] \<Rightarrow> [] | c # r3 \<Rightarrow> if c = CHR ''.'' then takeWhile isDigit r3 else []);
          r4 = (case r2 of [] \<Rightarrow> [] | c # r3 \<Rightarrow> if c = CHR ''.'' then dropWhile isDigit r3 else r2)
      in if intDigits = [] \<and> fracDigits = [] then None
         else Some ((of_nat (digitsVal intDigits)
                     + of_nat (digitsVal fracDigits) / 10 ^ length fracDigits)
                    * pow10 (exponentPart r4)))"

definition parseFloatString :: "string \<Rightarrow> jsnum" where
  "parseFloatString s =
     (let t = dropWhile isWhiteSpace s;
          neg = (t \<noteq> [] \<and> hd t = CHR ''-'');
          r = (if t \<noteq> [] \<and> (hd t = CHR ''-'' \<or> hd t = CHR ''+'') then tl t else t)
      in if prefix ''Infinity'' r then (if neg then NegInf else PosInf)
         else (case unsignedLiteral r of
                 None \<Rightarrow> NaN
               | Some v \<Rightarrow> Fin (if neg then - v else v)))"

definition parseFloat :: "jsval \<Rightarrow> jsnum" where
  "parseFloat v = (case v of JNum n \<Rightarrow> Fin (of_int n) | _ \<Rightarrow> parseFloatString (String v))"

section \<open>The built-in \<open>Date\<close>\<close>

text \<open>
  A \<open>Date\<close> holds a time value: an integral number of milliseconds since 1 January 1970
  UTC, or no value when the date is invalid.  The calendar is the proleptic Gregorian
  one.  The constructor from calendar fields and the getters work in the local time of
  the host, whose time zone is a parameter: \<open>tza t isUTC\<close> is the offset of local time
  from UTC, in milliseconds, at the UTC time value \<open>t\<close> (when \<open>isUTC\<close>) or at the local
  time value \<open>t\<close> (otherwise), as \<open>LocalTZA\<close> is in ECMA-262.
\<close>

type_synonym localTZA = "int \<Rightarrow> bool \<Rightarrow> int"

definition msPerDay :: int where
  "msPerDay = 86400000"

text \<open>
  Day number of a calendar date (month \<open>1..12\<close>), counted from 1 January 1970.  Years
  are taken to start in March, so that the leap day is the last day of a year, and are
  grouped into eras of 400 years, which have 146097 days.
\<close>

definition daysOfEra :: "int \<Rightarrow> int \<Rightarrow> int" where
  "daysOfEra y1 doy =
     (y1 div 400) * 146097
       + ((y1 mod 400) * 365 + (y1 mod 400) div 4 - (y1 mod 400) div 100 + doy) - 719468"

definition daysFromCivil :: "int \<Rightarrow> int \<Rightarrow> int \<Rightarrow> int" where
  "daysFromCivil y m d =
     daysOfEra (if m \<le> 2 then y - 1 else y)
       ((153 * (if m > 2 then m - 3 else m + 9) + 2) div 5 + d - 1)"

text \<open>Calendar date (year, month \<open>1..12\<close>, day of month) of a day number.\<close>

definition yearOfEra :: "int \<Rightarrow> int" where
  "yearOfEra doe = (doe - doe div 1460 + doe div 36524 - doe div 146096) div 365"

definition dayOfYear :: "int \<Rightarrow> int \<Rightarrow> int" where
  "dayOfYear doe yoe = doe - (365 * yoe + yoe div 4 - yoe div 100)"

definition civilOfMonth :: "int \<Rightarrow> int \<Rightarrow> int \<Rightarrow> int \<times> int \<times> int" where
  "civilOfMonth y doy mp =
     (if mp < 10 then (y, mp + 3, doy - (153 * mp + 2) div 5 + 1)
      else (y + 1, mp - 9, doy - (153 * mp + 2) div 5 + 1))"

definition civilOfYear :: "int \<Rightarrow> int \<Rightarrow> int \<Rightarrow> int \<times> int \<times> int" where
  "civilOfYear era doe yoe =
     civilOfMonth (yoe + era * 400) (dayOfYear doe yoe) ((5 * dayOfYear doe yoe + 2) div 153)"

definition civilFromDays :: "int \<Rightarrow> int \<times> int \<times> int" where
  "civilFromDays z0 =
     civilOfYear ((z0 + 719468) div 146097) ((z0 + 719468) mod 146097)
       (yearOfEra ((z0 + 719468) mod 146097))"

text \<open>
  \<open>new Date(year, monthIndex, day).getTime()\<close>, month index \<open>0..11\<close>: the UTC time value
  of local midnight of that day.
\<close>

definition utcOfLocal :: "localTZA \<Rightarrow> int \<Rightarrow> int" where
  "utcOfLocal tza t = t - tza t False"

definition dateOf :: "localTZA \<Rightarrow> int \<Rightarrow> int \<Rightarrow> int \<Rightarrow> int" where
  "dateOf tza y mi d = utcOfLocal tza (daysFromCivil y (mi + 1) d * msPerDay)"

text \<open>
  \<open>new Date(t)\<close> for a number \<open>t\<close>: the time value is \<open>t\<close> truncated to an integer, and
  the date is invalid beyond 8.64e15 ms on either side of the epoch.
\<close>

definition newDate :: "rat \<Rightarrow> int option" where
  "newDate t =
     (if \<bar>t\<bar> > 8640000000000000 then None
      else Some (if t < 0 then \<lceil>t\<rceil> else \<lfloor>t\<rfloor>))"

text \<open>The local time value of a UTC time value, and the getters, which read it.\<close>

definition localTime :: "localTZA \<Rightarrow> int \<Rightarrow> int" where
  "localTime tza tv = tv + tza tv True"

definition getFullYear :: "localTZA \<Rightarrow> int \<Rightarrow> int" where
  "getFullYear tza tv = fst (civilFromDays (localTime tza tv div msPerDay))"

definition getMonth :: "localTZA \<Rightarrow> int \<Rightarrow> int" where
  "getMonth tza tv = fst (snd (civilFromDays (localTime tza tv div msPerDay))) - 1"

definition getDate :: "localTZA \<Rightarrow> int \<Rightarrow> int" where
  "getDate tza tv = snd (snd (civilFromDays (localTime tza tv div msPerDay)))"

definition padStart2 :: "string \<Rightarrow> string" where
  "padStart2 s = replicate (2 - length s) (CHR ''0'') @ s"

section \<open>The date normalizer: \<open>convertExcelDate\<close>\<close>

definition excelEpoch :: "localTZA \<Rightarrow> int" where
  "excelEpoch tza = dateOf tza 1899 11 30"

definition formatDate :: "localTZA \<Rightarrow> int \<Rightarrow> string" where
  "formatDate tza tv =
     intToString (getFullYear tza tv) @ ''-''
       @ padStart2 (intToString (getMonth tza tv + 1))
       @ ''-'' @ padStart2 (intToString (getDate tza tv))"

definition convertExcelDate :: "localTZA \<Rightarrow> jsval \<Rightarrow> string" where
  "convertExcelDate tza excelDate =
     (if \<not> truthy excelDate \<or> excelDate = JStr '''' \<or> excelDate = JStr ''0''
         \<or> excelDate = JNum 0 then ''''
      else
        (case parseFloat excelDate of
           NaN \<Rightarrow> String excelDate
         | NegInf \<Rightarrow> String excelDate
         | PosInf \<Rightarrow> String excelDate
         | Fin numDate \<Rightarrow>
             if numDate \<le> 0 then String excelDate
             else if numDate < 10000 then String (JNum \<lfloor>numDate\<rfloor>)
             else
               (let daysToAdd = (if numDate \<ge> 60 then numDate else numDate + 1)
                in case newDate (of_int (excelEpoch tza) + daysToAdd * 24 * 60 * 60 * 1000) of
                     None \<Rightarrow> String excelDate
                   | Some tv \<Rightarrow> formatDate tza tv)))"

text \<open>
  The text \<open>YYYY-MM-DD\<close> of a day number, to state what \<open>convertExcelDate\<close> returns.
\<close>

definition isoDate :: "int \<Rightarrow> string" where
  "isoDate dayNumber =
     intToString (fst (civilFromDays dayNumber)) @ ''-''
       @ padStart2 (intToString (fst (snd (civilFromDays dayNumber))))
       @ ''-'' @ padStart2 (intToString (snd (snd (civilFromDays dayNumber))))"





text \<open>
  Two time zones: UTC, and a zone on local mean time, 8:05:43 ahead of UTC, until the
  end of 1900 and 8 hours ahead of UTC since (as Asia/Shanghai, its years of summer
  time left out).
\<close>

definition utc :: localTZA where
  "utc t isUTC = 0"


section \<open>Strings\<close>

text \<open>
  \<open>s.includes(t)\<close>, \<open>s.startsWith(t)\<close>, \<open>s.toLowerCase()\<close> and \<open>s.trim()\<close>.  Case
  mapping and white space are those of the ASCII range.
\<close>

fun stringIncludes :: "string \<Rightarrow> string \<Rightarrow> bool" where
  "stringIncludes [] t = (t = [])"
| "stringIncludes (c # cs) t = (prefix t (c # cs) \<or> stringIncludes cs t)"

definition startsWith :: "string \<Rightarrow> string \<Rightarrow> bool" where
  "startsWith s t = prefix t s"

definition lowerChar :: "char \<Rightarrow> char" where
  "lowerChar c =
     (case find (\<lambda>(u, l). u = c)
             (zip ''ABCDEFGHIJKLMNOPQRSTUVWXYZ'' ''abcdefghijklmnopqrstuvwxyz'') of
        Some (u, l) \<Rightarrow> l
      | None \<Rightarrow> c)"

definition toLowerCase :: "string \<Rightarrow> string" where
  "toLowerCase s = map lowerChar s"


section \<open>Records, events, persons and the registry\<close>

text \<open>
  An input record.  The text fields are strings, the empty string standing for an
  absent field (the code only tests them for truthiness or defaults them to \<open>''\<close>);
  the anchor id, the parent id and the date may be numbers or strings.
\<close>

record event_record =
  Person :: string
  AnchorId :: jsval
  Ereignis :: string
  Datum :: jsval
  Partner :: string
  PartnerGeburtTod :: string
  Eltern1 :: string
  Eltern2 :: string
  ParentId :: jsval

record event =
  type :: string
  date :: string
  partner :: string
  partnerBirthDeath :: string
  parent1 :: string
  parent2 :: string

text \<open>
  A person object.  The objects live in the \<open>persons\<close> map, each under its own id, and
  are shared by reference; a children array therefore holds the ids of its members.
\<close>

record person =
  id' :: jsval
  name :: string
  events :: "event list"
  children :: "jsval list"
  parentId :: jsval

text \<open>
  The \<open>Map\<close> of persons keeps its keys in insertion order; \<open>set\<close> on an existing key
  replaces the value in place.
\<close>

type_synonym registry = "(jsval \<times> person) list"

definition has :: "registry \<Rightarrow> jsval \<Rightarrow> bool" where
  "has ps k = (map_of ps k \<noteq> None)"

definition get :: "registry \<Rightarrow> jsval \<Rightarrow> person option" where
  "get ps k = map_of ps k"

definition set' :: "registry \<Rightarrow> jsval \<Rightarrow> person \<Rightarrow> registry" where
  "set' ps k v = AList.update k v ps"

definition values' :: "registry \<Rightarrow> person list" where
  "values' ps = map snd ps"

text \<open>A mutation of the person object stored under \<open>k\<close>.\<close>

definition mutate :: "registry \<Rightarrow> jsval \<Rightarrow> (person \<Rightarrow> person) \<Rightarrow> registry" where
  "mutate ps k f = AList.map_entry k f ps"

definition newPerson :: "jsval \<Rightarrow> string \<Rightarrow> person" where
  "newPerson anchorId nm =
     \<lparr>id' = anchorId, name = nm, events = [], children = [], parentId = JNull\<rparr>"

definition makeEvent :: "localTZA \<Rightarrow> event_record \<Rightarrow> event" where
  "makeEvent tza record =
     \<lparr>type = Ereignis record,
      date = convertExcelDate tza (Datum record),
      partner = Partner record,
      partnerBirthDeath = PartnerGeburtTod record,
      parent1 = Eltern1 record,
      parent2 = Eltern2 record\<rparr>"

section \<open>\<open>buildTree\<close>, first pass\<close>

text \<open>
  The repository holds two versions of the widget.  The definitions without suffix
  follow \<^verbatim>\<open>widgets/fam-tree/fam-tree.js\<close>; those with suffix \<open>_b\<close> follow the second
  copy of the file, which normalizes anchor ids, looks persons up by name and also
  uses the second parent-name hint.
\<close>

text \<open>The two name tests used to find a parent from a free-text hint.\<close>

definition nameContains :: "string \<Rightarrow> person \<Rightarrow> bool" where
  "nameContains hint p = (name p = hint \<or> stringIncludes (name p) hint)"

definition nameMatches :: "string \<Rightarrow> person \<Rightarrow> bool" where
  "nameMatches hint p =
     (name p = hint \<or> stringIncludes (name p) hint \<or> stringIncludes hint (name p))"

text \<open>
  The callback of the first \<open>forEach\<close> in \<^verbatim>\<open>widgets/fam-tree/fam-tree.js\<close>, in its
  three parts: the person of the record is looked up or created (the registry and the
  person's key are returned), the event is pushed, the parent id is set.
\<close>

definition resolveIdentity :: "registry \<Rightarrow> event_record \<Rightarrow> registry \<times> jsval" where
  "resolveIdentity ps record =
     (let anchorId = (if truthy (AnchorId record) then AnchorId record
                      else JStr (Person record))
      in (if \<not> has ps anchorId
          then set' ps anchorId (newPerson anchorId (Person record)) else ps,
          anchorId))"

definition pushEvent :: "localTZA \<Rightarrow> registry \<Rightarrow> jsval \<Rightarrow> event_record \<Rightarrow> registry" where
  "pushEvent tza ps anchorId record =
     mutate ps anchorId (\<lambda>p. p\<lparr>events := events p @ [makeEvent tza record]\<rparr>)"

definition assignParent :: "registry \<Rightarrow> jsval \<Rightarrow> event_record \<Rightarrow> registry" where
  "assignParent ps anchorId record =
     (if truthy (ParentId record)
      then mutate ps anchorId (\<lambda>p. p\<lparr>parentId := JStr (String (ParentId record))\<rparr>)
      else if Eltern1 record \<noteq> [] then
        (case find (nameContains (Eltern1 record)) (values' ps) of
           Some parent \<Rightarrow> mutate ps anchorId (\<lambda>p. p\<lparr>parentId := id' parent\<rparr>)
         | None \<Rightarrow> ps)
      else ps)"

definition firstPassStep :: "localTZA \<Rightarrow> registry \<Rightarrow> event_record \<Rightarrow> registry" where
  "firstPassStep tza ps record =
     (if Person record = [] then ps
      else
        (case resolveIdentity ps record of
           (ps1, anchorId) \<Rightarrow>
             assignParent (pushEvent tza ps1 anchorId record) anchorId record))"

definition firstPass :: "localTZA \<Rightarrow> event_record list \<Rightarrow> registry" where
  "firstPass tza data = foldl (firstPassStep tza) [] data"

text \<open>The same callback in the second copy.\<close>

definition resolveIdentity_b :: "registry \<Rightarrow> event_record \<Rightarrow> registry \<times> jsval" where
  "resolveIdentity_b ps record =
     (if truthy (AnchorId record) then
        (let anchorId = JStr (String (AnchorId record))
         in (if \<not> has ps anchorId
             then set' ps anchorId (newPerson anchorId (Person record)) else ps,
             anchorId))
      else
        (case find (\<lambda>p. name p = Person record) (values' ps) of
           Some existingPerson \<Rightarrow> (ps, id' existingPerson)
         | None \<Rightarrow>
             (set' ps (JStr (Person record))
                (newPerson (JStr (Person record)) (Person record)),
              JStr (Person record))))"

definition assignParent_b :: "registry \<Rightarrow> jsval \<Rightarrow> event_record \<Rightarrow> registry" where
  "assignParent_b ps anchorId record =
     (if truthy (ParentId record)
      then mutate ps anchorId (\<lambda>p. p\<lparr>parentId := JStr (String (ParentId record))\<rparr>)
      else if Eltern1 record \<noteq> [] then
        (case find (nameMatches (Eltern1 record)) (values' ps) of
           Some parent \<Rightarrow> mutate ps anchorId (\<lambda>p. p\<lparr>parentId := id' parent\<rparr>)
         | None \<Rightarrow>
             if Eltern2 record \<noteq> [] then
               (case find (nameMatches (Eltern2 record)) (values' ps) of
                  Some parent' \<Rightarrow> mutate ps anchorId (\<lambda>p. p\<lparr>parentId := id' parent'\<rparr>)
                | None \<Rightarrow> ps)
             else ps)
      else if Eltern2 record \<noteq> [] then
        (case find (nameMatches (Eltern2 record)) (values' ps) of
           Some parent \<Rightarrow> mutate ps anchorId (\<lambda>p. p\<lparr>parentId := id' parent\<rparr>)
         | None \<Rightarrow> ps)
      else ps)"

definition firstPassStep_b :: "localTZA \<Rightarrow> registry \<Rightarrow> event_record \<Rightarrow> registry" where
  "firstPassStep_b tza ps record =
     (if Person record = [] then ps
      else
        (case resolveIdentity_b ps record of
           (ps1, anchorId) \<Rightarrow>
             assignParent_b (pushEvent tza ps1 anchorId record) anchorId record))"

definition firstPass_b :: "localTZA \<Rightarrow> event_record list \<Rightarrow> registry" where
  "firstPass_b tza data = foldl (firstPassStep_b tza) [] data"

section \<open>\<open>buildTree\<close>, second pass\<close>

text \<open>\<open>parent.children.push(person); person.parentId = parent.id\<close>\<close>

definition attach :: "registry \<Rightarrow> person \<Rightarrow> person \<Rightarrow> registry" where
  "attach ps parent person =
     mutate (mutate ps (id' parent) (\<lambda>q. q\<lparr>children := children q @ [id' person]\<rparr>))
       (id' person) (\<lambda>q. q\<lparr>parentId := id' parent\<rparr>)"

text \<open>The search for a parent by the name hint of the person's own events.\<close>

definition attachByName :: "registry \<Rightarrow> person \<Rightarrow> registry" where
  "attachByName ps person =
     (case find (\<lambda>e. parent1 e \<noteq> []) (events person) of
        None \<Rightarrow> ps
      | Some e \<Rightarrow>
          (case find (nameMatches (parent1 e)) (values' ps) of
             None \<Rightarrow> ps
           | Some parentByName \<Rightarrow>
               if find (\<lambda>c. c = id' person) (children parentByName) = None
               then attach ps parentByName person else ps))"

definition secondPassStep :: "registry \<Rightarrow> jsval \<Rightarrow> registry" where
  "secondPassStep ps k =
     (case get ps k of
        None \<Rightarrow> ps
      | Some person \<Rightarrow>
          if truthy (parentId person) then
            (case get ps (parentId person) of
               Some parent \<Rightarrow>
                 mutate ps (parentId person) (\<lambda>q. q\<lparr>children := children q @ [id' person]\<rparr>)
             | None \<Rightarrow> attachByName ps person)
          else attachByName ps person)"

definition secondPass :: "registry \<Rightarrow> registry" where
  "secondPass ps = foldl secondPassStep ps (map fst ps)"

definition attachByName_b :: "registry \<Rightarrow> person \<Rightarrow> registry" where
  "attachByName_b ps person =
     (case find (\<lambda>e. parent1 e \<noteq> [] \<or> parent2 e \<noteq> []) (events person) of
        None \<Rightarrow> ps
      | Some eventWithParent \<Rightarrow>
          (let byFirst = (if parent1 eventWithParent \<noteq> []
                          then find (nameMatches (parent1 eventWithParent)) (values' ps)
                          else None);
               parentByName = (if byFirst = None \<and> parent2 eventWithParent \<noteq> []
                               then find (nameMatches (parent2 eventWithParent)) (values' ps)
                               else byFirst)
           in case parentByName of
                None \<Rightarrow> ps
              | Some parent \<Rightarrow>
                  if find (\<lambda>c. c = id' person) (children parent) = None
                  then attach ps parent person else ps))"

definition secondPassStep_b :: "registry \<Rightarrow> jsval \<Rightarrow> registry" where
  "secondPassStep_b ps k =
     (case get ps k of
        None \<Rightarrow> ps
      | Some person \<Rightarrow>
          if truthy (parentId person) then
            (case get ps (parentId person) of
               Some parent \<Rightarrow>
                 mutate ps (parentId person) (\<lambda>q. q\<lparr>children := children q @ [id' person]\<rparr>)
             | None \<Rightarrow> attachByName_b ps person)
          else attachByName_b ps person)"

definition secondPass_b :: "registry \<Rightarrow> registry" where
  "secondPass_b ps = foldl secondPassStep_b ps (map fst ps)"

section \<open>Birth years and the sorting of children\<close>

text \<open>
  \<open>getBirthDate\<close>: the number read from the four leading digits of the date of the
  first birth event, or \<open>null\<close>.
\<close>

definition getBirthDate :: "person \<Rightarrow> int option" where
  "getBirthDate p =
     (case find (\<lambda>e. type e = ''Geburt'') (events p) of
        None \<Rightarrow> None
      | Some birthEvent \<Rightarrow>
          if date birthEvent \<noteq> [] \<and> 4 \<le> length (date birthEvent)
             \<and> list_all isDigit (take 4 (date birthEvent))
          then Some (int (digitsVal (take 4 (date birthEvent))))
          else None)"

text \<open>\<open>!x\<close> for a value that is \<open>null\<close> or a number.\<close>

definition falsy :: "int option \<Rightarrow> bool" where
  "falsy x = (x = None \<or> x = Some 0)"

text \<open>
  \<open>Array.prototype.sort\<close> is the sort of the host, a parameter of the functions that
  call it.  What the order of its result owes to the answers of the comparison function
  is stated by \<open>sortContract\<close>: the result holds the elements of the array, and it is
  sorted with respect to every transitive relation that all the answers agree with (a
  negative answer on \<open>a\<close> and \<open>b\<close> only if \<open>a\<close> may come before \<open>b\<close>, a positive one only
  if \<open>b\<close> may come before \<open>a\<close>, zero only if both).  Where the answers are not those of
  a consistent comparison the order of the result is left to the host in all else.
\<close>

type_synonym 'a arraySort = "('a \<Rightarrow> 'a \<Rightarrow> int) \<Rightarrow> 'a list \<Rightarrow> 'a list"

definition agreesWith :: "('a \<Rightarrow> 'a \<Rightarrow> int) \<Rightarrow> ('a \<Rightarrow> 'a \<Rightarrow> bool) \<Rightarrow> bool" where
  "agreesWith cmp R =
     (\<forall>a b. (cmp a b < 0 \<longrightarrow> R a b) \<and> (0 < cmp a b \<longrightarrow> R b a)
            \<and> (cmp a b = 0 \<longrightarrow> R a b \<and> R b a))"

definition sortContract :: "'a arraySort \<Rightarrow> bool" where
  "sortContract sortFn =
     (\<forall>cmp xs. mset (sortFn cmp xs) = mset xs
               \<and> (\<forall>R. transp R \<and> agreesWith cmp R \<longrightarrow> sorted_wrt R (sortFn cmp xs)))"

text \<open>
  Two sorts that meet the contract, both insertion sorts that take the elements from
  left to right.  \<open>sortBy\<close> asks the comparison function about the new element and an
  element of the sorted part, from the left, and places the new element before the
  first one that it is put strictly before.  \<open>sortByBackward\<close> asks about an element of
  the sorted part and the new element, from the right, and moves the new element to the
  left as long as the answer is positive.
\<close>

fun insertBy :: "('a \<Rightarrow> 'a \<Rightarrow> int) \<Rightarrow> 'a \<Rightarrow> 'a list \<Rightarrow> 'a list" where
  "insertBy cmp x [] = [x]"
| "insertBy cmp x (y # ys) = (if cmp x y < 0 then x # y # ys else y # insertBy cmp x ys)"

definition sortBy :: "'a arraySort" where
  "sortBy cmp xs = foldl (\<lambda>sorted x. insertBy cmp x sorted) [] xs"

fun insertBackward :: "('a \<Rightarrow> 'a \<Rightarrow> int) \<Rightarrow> 'a \<Rightarrow> 'a list \<Rightarrow> 'a list" where
  "insertBackward cmp x [] = [x]"
| "insertBackward cmp x (y # ys) =
     (if list_all (\<lambda>z. 0 < cmp z x) (y # ys) then x # y # ys
      else y # insertBackward cmp x ys)"

definition sortByBackward :: "'a arraySort" where
  "sortByBackward cmp xs = foldl (\<lambda>sorted x. insertBackward cmp x sorted) [] xs"

text \<open>The comparison function of the children sort, on two birth years.\<close>

definition compareBirth :: "int option \<Rightarrow> int option \<Rightarrow> int" where
  "compareBirth aBirth bBirth =
     (if falsy aBirth then 1
      else if falsy bBirth then - 1
      else the aBirth - the bBirth)"

text \<open>The birth year of the child object with id \<open>c\<close>.\<close>

definition birthOf :: "registry \<Rightarrow> jsval \<Rightarrow> int option" where
  "birthOf ps c = (case get ps c of None \<Rightarrow> None | Some child \<Rightarrow> getBirthDate child)"

definition sortChildren :: "jsval arraySort \<Rightarrow> registry \<Rightarrow> registry" where
  "sortChildren sortFn ps =
     map (\<lambda>(k, person).
            (k, person\<lparr>children :=
                  sortFn (\<lambda>a b. compareBirth (birthOf ps a) (birthOf ps b)) (children person)\<rparr>))
       ps"

section \<open>Root selection and \<open>buildTree\<close>\<close>

definition noParent :: "person \<Rightarrow> bool" where
  "noParent p = (\<not> truthy (parentId p) \<or> parentId p = JStr [])"

text \<open>The callback of the \<open>reduce\<close> that looks for the earliest birth.\<close>

definition earliestOf :: "person \<Rightarrow> person \<Rightarrow> person" where
  "earliestOf earliest current =
     (if falsy (getBirthDate earliest) then current
      else if falsy (getBirthDate current) then earliest
      else if the (getBirthDate earliest) < the (getBirthDate current) then earliest
      else current)"

definition personsWithNoParent :: "registry \<Rightarrow> person list" where
  "personsWithNoParent ps = filter noParent (values' ps)"

definition findRoot :: "registry \<Rightarrow> person option" where
  "findRoot ps =
     (case (case get ps (JStr ''0'') of
              Some personWithId0 \<Rightarrow> if noParent personWithId0 then Some personWithId0 else None
            | None \<Rightarrow> None) of
        Some personWithId0 \<Rightarrow> Some personWithId0
      | None \<Rightarrow>
          (case personsWithNoParent ps of
             first # rest \<Rightarrow> Some (foldl earliestOf first rest)
           | [] \<Rightarrow> (case values' ps of [] \<Rightarrow> None | first # rest \<Rightarrow> Some first)))"

record familyTree =
  persons :: registry
  rootPerson :: "person option"
  currentRoot :: "person option"

definition assemble :: "jsval arraySort \<Rightarrow> registry \<Rightarrow> familyTree" where
  "assemble sortFn linked =
     (let ps = sortChildren sortFn linked
      in \<lparr>persons = ps, rootPerson = findRoot ps, currentRoot = findRoot ps\<rparr>)"

text \<open>\<open>buildTree\<close>, on a host with the time zone \<open>tza\<close> and the array sort \<open>sortFn\<close>.\<close>

definition buildTree :: "localTZA \<Rightarrow> jsval arraySort \<Rightarrow> event_record list \<Rightarrow> familyTree" where
  "buildTree tza sortFn data = assemble sortFn (secondPass (firstPass tza data))"

definition buildTree_b :: "localTZA \<Rightarrow> jsval arraySort \<Rightarrow> event_record list \<Rightarrow> familyTree" where
  "buildTree_b tza sortFn data = assemble sortFn (secondPass_b (firstPass_b tza data))"

section \<open>Navigation\<close>

datatype error = TypeError

text \<open>The parent the upward walk moves to, if any.\<close>

definition parentOf :: "registry \<Rightarrow> person \<Rightarrow> person option" where
  "parentOf ps current =
     (if truthy (parentId current) \<and> parentId current \<noteq> JStr ''0''
         \<and> parentId current \<noteq> JStr []
      then get ps (parentId current) else None)"

text \<open>
  The \<open>while\<close> loop of \<open>getPathToRoot\<close>: \<open>visited\<close> holds the ids seen so far, the result
  is the part of \<open>path\<close> pushed from \<open>current\<close> on.
\<close>

function walkUp :: "registry \<Rightarrow> jsval list \<Rightarrow> person \<Rightarrow> person list" where
  "walkUp ps visited current =
     (if id' current \<in> set visited then []
      else current #
        (case parentOf ps current of
           Some parent \<Rightarrow> walkUp ps (id' current # visited) parent
         | None \<Rightarrow> []))"
  by pat_completeness auto
termination
proof (relation "measure (\<lambda>(ps, visited, current).
          2 * card (id' ` set (values' ps) - set visited)
          + (if id' current \<in> id' ` set (values' ps) then 0 else 1))")
  show "wf (measure (\<lambda>(ps, visited, current).
          2 * card (id' ` set (values' ps) - set visited)
          + (if id' current \<in> id' ` set (values' ps) then 0 else 1)))"
    by simp
next
  fix ps :: registry and visited :: "jsval list" and current parent :: person
  assume nv: "id' current \<notin> set visited" and par: "parentOf ps current = Some parent"
  let ?V = "id' ` set (values' ps)"
  have "parent \<in> set (values' ps)"
    using par
    by (auto simp: parentOf_def get_def values'_def split: if_splits
          dest: map_of_SomeD intro: rev_image_eqI)
  then have pin: "id' parent \<in> ?V"
    by blast
  have sub: "?V - set (id' current # visited) \<subseteq> ?V - set visited"
    by auto
  have fin: "finite (?V - set visited)"
    by simp
  show "((ps, id' current # visited, parent), (ps, visited, current))
        \<in> measure (\<lambda>(ps, visited, current).
          2 * card (id' ` set (values' ps) - set visited)
          + (if id' current \<in> id' ` set (values' ps) then 0 else 1))"
  proof (cases "id' current \<in> ?V")
    case True
    then have "?V - set (id' current # visited) \<subset> ?V - set visited"
      using nv by auto
    then have "card (?V - set (id' current # visited)) < card (?V - set visited)"
      using fin by (simp add: psubset_card_mono)
    then show ?thesis using pin True by simp
  next
    case False
    have "card (?V - set (id' current # visited)) \<le> card (?V - set visited)"
      using sub fin by (simp add: card_mono)
    then show ?thesis using pin False by simp
  qed
qed

declare walkUp.simps [simp del]

definition getPathToRoot :: "familyTree \<Rightarrow> person \<Rightarrow> error + person list" where
  "getPathToRoot t person =
     (let path = walkUp (persons t) [] person
      in case rootPerson t of
           None \<Rightarrow> Inl TypeError
         | Some rootP \<Rightarrow>
             Inr (rev (if path = [] \<or> id' (last path) \<noteq> id' rootP
                       then path @ [rootP] else path)))"

text \<open>
  \<open>loadFromURL\<close>, from the list of names obtained by splitting the path parameter
  (\<open>None\<close> when the parameter is absent or empty).
\<close>




section \<open>Descendant count\<close>

text \<open>
  \<open>countDescendants\<close> recurses through the children arrays without a guard.  The first
  argument bounds the depth of the recursion; \<open>None\<close> is the call that does not return
  within it.
\<close>

fun countDescendants :: "nat \<Rightarrow> registry \<Rightarrow> person \<Rightarrow> nat option" where
  "countDescendants 0 ps person = None"
| "countDescendants (Suc depth) ps person =
     foldl (\<lambda>count c.
              case count of
                None \<Rightarrow> None
              | Some n \<Rightarrow>
                  (case get ps c of
                     None \<Rightarrow> None
                   | Some child \<Rightarrow>
                       (case countDescendants depth ps child of
                          None \<Rightarrow> None
                        | Some m \<Rightarrow> Some (n + m))))
       (Some (length (children person))) (children person)"

section \<open>Search\<close>

datatype matchReason = Name | Spouse

record searchMatch =
  person :: person
  matchReason :: matchReason
  matchedSpouse :: "string option"

text \<open>The match entry of one person, if it matches the lower-cased query.\<close>

definition matchOf :: "string \<Rightarrow> person \<Rightarrow> searchMatch option" where
  "matchOf queryLower p =
     (if stringIncludes (toLowerCase (name p)) queryLower
      then Some \<lparr>person = p, matchReason = Name, matchedSpouse = None\<rparr>
      else
        (case find (\<lambda>marriage. stringIncludes (toLowerCase (partner marriage)) queryLower)
                (filter (\<lambda>e. type e = ''Heirat'' \<and> partner e \<noteq> []) (events p)) of
           Some marriage \<Rightarrow>
             Some \<lparr>person = p, matchReason = Spouse, matchedSpouse = Some (partner marriage)\<rparr>
         | None \<Rightarrow> None))"

text \<open>
  The comparison function of the result sort.  \<open>localeCompare\<close> is the collation of
  the host, a parameter here, as the array sort is.
\<close>

definition compareMatches ::
  "(string \<Rightarrow> string \<Rightarrow> int) \<Rightarrow> string \<Rightarrow> searchMatch \<Rightarrow> searchMatch \<Rightarrow> int" where
  "compareMatches localeCompare queryLower a b =
     (if matchReason a = Name \<and> matchReason b = Spouse then - 1
      else if matchReason a = Spouse \<and> matchReason b = Name then 1
      else
        (let aExact = startsWith (toLowerCase (name (person a))) queryLower;
             bExact = startsWith (toLowerCase (name (person b))) queryLower
         in if aExact \<and> \<not> bExact then - 1
            else if \<not> aExact \<and> bExact then 1
            else localeCompare (name (person a)) (name (person b))))"

definition performSearch ::
  "searchMatch arraySort \<Rightarrow> (string \<Rightarrow> string \<Rightarrow> int) \<Rightarrow> registry \<Rightarrow> string
     \<Rightarrow> searchMatch list" where
  "performSearch sortFn localeCompare ps query =
     (let queryLower = toLowerCase query;
          matches = List.map_filter (matchOf queryLower) (values' ps)
      in take 20 (sortFn (compareMatches localeCompare queryLower) matches))"

section \<open>Example data\<close>

text \<open>A record with every field absent, to build examples from.\<close>

definition blank :: event_record where
  "blank = \<lparr>Person = [], AnchorId = JUndefined, Ereignis = [], Datum = JUndefined,
             Partner = [], PartnerGeburtTod = [], Eltern1 = [], Eltern2 = [],
             ParentId = JUndefined\<rparr>"


text \<open>Two persons without parents and without birth events.\<close>

definition annaBerta :: "event_record list" where
  "annaBerta = [blank\<lparr>Person := ''Anna''\<rparr>, blank\<lparr>Person := ''Berta''\<rparr>]"

text \<open>Three persons without parents: born 1900, born 1850, and without a birth event.\<close>

definition threeFounders :: "event_record list" where
  "threeFounders =
     [blank\<lparr>Person := ''Anna'', Ereignis := ''Geburt'', Datum := JNum 1900\<rparr>,
      blank\<lparr>Person := ''Berta'', Ereignis := ''Geburt'', Datum := JNum 1850\<rparr>,
      blank\<lparr>Person := ''Carl'', Ereignis := ''Heirat'', Partner := ''Dora''\<rparr>]"

text \<open>
  A person with anchor id \<open>Bob\<close>, a record without anchor id for a person named Bob, and
  a second record with the anchor id \<open>Bob\<close>.
\<close>

definition anchorNamedBob :: "event_record list" where
  "anchorNamedBob =
     [blank\<lparr>Person := ''Alice'', AnchorId := JStr ''Bob'', Ereignis := ''Geburt''\<rparr>,
      blank\<lparr>Person := ''Bob'', Ereignis := ''Heirat''\<rparr>,
      blank\<lparr>Person := ''Alice'', AnchorId := JStr ''Bob'', Ereignis := ''Tod''\<rparr>]"

text \<open>Two records of one person, with the anchor id 5 as a number and as a string.\<close>

definition anchorFive :: "event_record list" where
  "anchorFive =
     [blank\<lparr>Person := ''Alice'', AnchorId := JNum 5, Ereignis := ''Geburt''\<rparr>,
      blank\<lparr>Person := ''Alice'', AnchorId := JStr ''5'', Ereignis := ''Tod''\<rparr>]"

text \<open>
  Hans, and a child with two records: the first names a parent nobody matches, the
  second a parent whose name contains the name of Hans.
\<close>

definition hansKind :: "event_record list" where
  "hansKind =
     [blank\<lparr>Person := ''Hans''\<rparr>,
      blank\<lparr>Person := ''Kind'', Ereignis := ''Geburt'', Eltern1 := ''Zacharias''\<rparr>,
      blank\<lparr>Person := ''Kind'', Ereignis := ''Tod'', Eltern1 := ''Hans Mueller''\<rparr>]"

text \<open>A person whose parent hint is the person's own name.\<close>

definition hansHans :: "event_record list" where
  "hansHans = [blank\<lparr>Person := ''Hans'', Eltern1 := ''Hans''\<rparr>]"

definition hansSelf :: person where
  "hansSelf =
     \<lparr>id' = JStr ''Hans'', name = ''Hans'',
      events = [\<lparr>type = [], date = [], partner = [], partnerBirthDeath = [],
                  parent1 = ''Hans'', parent2 = []\<rparr>],
      children = [JStr ''Hans''], parentId = JStr ''Hans''\<rparr>"

section \<open>Ancestors\<close>

text \<open>
  The persons reached from \<open>p\<close> along the parent links that the upward walk follows,
  \<open>p\<close> included.
\<close>

definition ancestry :: "registry \<Rightarrow> (person \<times> person) set" where
  "ancestry ps = {(a, b). parentOf ps a = Some b}"

definition ancestors :: "registry \<Rightarrow> person \<Rightarrow> person set" where
  "ancestors ps p = {q. (p, q) \<in> (ancestry ps)\<^sup>*}"

text \<open>Two persons, each the parent of the other.\<close>

definition cycleAB :: "event_record list" where
  "cycleAB =
     [blank\<lparr>Person := ''Anna'', AnchorId := JStr ''a'', ParentId := JStr ''b''\<rparr>,
      blank\<lparr>Person := ''Bert'', AnchorId := JStr ''b'', ParentId := JStr ''a''\<rparr>]"

definition annaCycle :: person where
  "annaCycle =
     \<lparr>id' = JStr ''a'', name = ''Anna'',
      events = [\<lparr>type = [], date = [], partner = [], partnerBirthDeath = [],
                  parent1 = [], parent2 = []\<rparr>],
      children = [JStr ''b''], parentId = JStr ''b''\<rparr>"

definition bertCycle :: person where
  "bertCycle =
     \<lparr>id' = JStr ''b'', name = ''Bert'',
      events = [\<lparr>type = [], date = [], partner = [], partnerBirthDeath = [],
                  parent1 = [], parent2 = []\<rparr>],
      children = [JStr ''a''], parentId = JStr ''a''\<rparr>"

section \<open>The collation of names\<close>

text \<open>
  Modelled from the spec: \<open>String.prototype.localeCompare\<close> is the host's collation and
  is not part of the repository.  The spec describes the order it gives to names as
  case-insensitive lexicographic order; \<open>localeCompare\<close> below compares the lower-cased
  strings character by character.
\<close>

fun compareChars :: "string \<Rightarrow> string \<Rightarrow> int" where
  "compareChars [] [] = 0"
| "compareChars [] (y # ys) = - 1"
| "compareChars (x # xs) [] = 1"
| "compareChars (x # xs) (y # ys) =
     (if (of_char x :: nat) < of_char y then - 1
      else if (of_char y :: nat) < of_char x then 1
      else compareChars xs ys)"

definition localeCompare :: "string \<Rightarrow> string \<Rightarrow> int" where
  "localeCompare a b = compareChars (toLowerCase a) (toLowerCase b)"

section \<open>Further example data\<close>

text \<open>
  A parent with anchor id 7 and two children: Anna, whose birth date is the string
  \<open>0000\<close>, and Berta, born 1900.
\<close>

definition yearZero :: "event_record list" where
  "yearZero =
     [blank\<lparr>Person := ''Paul'', AnchorId := JStr ''7''\<rparr>,
      blank\<lparr>Person := ''Anna'', Ereignis := ''Geburt'', Datum := JStr ''0000'', ParentId := JStr ''7''\<rparr>,
      blank\<lparr>Person := ''Berta'', Ereignis := ''Geburt'', Datum := JNum 1900, ParentId := JStr ''7''\<rparr>]"

text \<open>
  A parent with four children: Carl without birth event, Dora born 1902, Emil without
  birth event, Frieda born 1899.
\<close>

definition fourChildren :: "event_record list" where
  "fourChildren =
     [blank\<lparr>Person := ''Paul'', AnchorId := JStr ''7''\<rparr>,
      blank\<lparr>Person := ''Carl'', Ereignis := ''Heirat'', ParentId := JStr ''7''\<rparr>,
      blank\<lparr>Person := ''Dora'', Ereignis := ''Geburt'', Datum := JNum 1902, ParentId := JStr ''7''\<rparr>,
      blank\<lparr>Person := ''Emil'', Ereignis := ''Tod'', ParentId := JStr ''7''\<rparr>,
      blank\<lparr>Person := ''Frieda'', Ereignis := ''Geburt'', Datum := JNum 1899, ParentId := JStr ''7''\<rparr>]"

text \<open>Anna Schmidt, married to Otto Schmidt; Lotto Maier; Otto Braun; otto Adam.\<close>

definition ottos :: "event_record list" where
  "ottos =
     [blank\<lparr>Person := ''Anna Schmidt'', Ereignis := ''Heirat'', Partner := ''Otto Schmidt''\<rparr>,
      blank\<lparr>Person := ''Lotto Maier''\<rparr>,
      blank\<lparr>Person := ''Otto Braun''\<rparr>,
      blank\<lparr>Person := ''otto Adam''\<rparr>]"

text \<open>
  Anna, born 1800, whose parent id names nobody, and Berta, born 1900, without parent id.
\<close>

definition danglingParent :: "event_record list" where
  "danglingParent =
     [blank\<lparr>Person := ''Anna'', Ereignis := ''Geburt'', Datum := JNum 1800, ParentId := JStr ''999''\<rparr>,
      blank\<lparr>Person := ''Berta'', Ereignis := ''Geburt'', Datum := JNum 1900\<rparr>]"

section \<open>Properties of the date normalizer\<close>

lemmas date_eval = formatDate_def getFullYear_def getMonth_def getDate_def civilFromDays_def
  civilOfYear_def civilOfMonth_def dayOfYear_def yearOfEra_def daysFromCivil_def daysOfEra_def
  msPerDay_def intToString_def padStart2_def natToString.simps digitChar_def excelEpoch_def
  dateOf_def utcOfLocal_def localTime_def newDate_def isoDate_def

lemmas parse_eval = parseFloat_def parseFloatString_def unsignedLiteral_def isWhiteSpace_def
  isDigit_def digitsVal_def digitVal_def exponentPart_def pow10_def Let_def

lemma calendar_examples:
  "civilFromDays (- 25569) = (1899, 12, 30)" "civilFromDays (- 25509) = (1900, 2, 28)"
  "civilFromDays (- 25508) = (1900, 3, 1)" "civilFromDays (- 1) = (1969, 12, 31)"
  "civilFromDays 0 = (1970, 1, 1)" "civilFromDays 11016 = (2000, 2, 29)"
  "civilFromDays 19431 = (2023, 3, 15)" "daysFromCivil 1970 1 1 = 0"
  "daysFromCivil 2000 2 29 = 11016" "daysFromCivil 2023 3 15 = 19431"
  by (simp_all add: date_eval)

lemma epoch_day: "daysFromCivil 1899 12 30 = - 25569"
  by (simp add: daysFromCivil_def daysOfEra_def)








text \<open>
  C1, as the code has it, in every time zone.  A number below 10000 is a year: the
  normalizer returns the empty string at 0, and the decimal digits of the number at
  1485, 1, 60 and 61.
\<close>

theorem convertExcelDate_examples:
  "convertExcelDate tza (JNum 0) = [] \<and> convertExcelDate tza (JNum 1485) = ''1485''
   \<and> convertExcelDate tza (JNum 1) = ''1'' \<and> convertExcelDate tza (JNum 60) = ''60''
   \<and> convertExcelDate tza (JNum 61) = ''61''"
  by (simp add: convertExcelDate_def parseFloat_def date_eval)

text \<open>
  C1, witness: 1485 is a truthy input that is not the falsy guard's, and is read as a year.
\<close>

theorem convertExcelDate_examples_witness:
  "truthy (JNum 1485) \<and> JNum 1485 \<noteq> JStr ''0'' \<and> convertExcelDate utc (JNum 1485) = ''1485''"
  using convertExcelDate_examples [of utc] by simp

text \<open>
  C1, as stated, fails at 1, 60 and 61: none of them is turned into a date of 1900.
\<close>

theorem convertExcelDate_small_serials_are_years:
  "convertExcelDate utc (JNum 1) \<noteq> ''1900-01-01''
   \<and> convertExcelDate utc (JNum 60) \<noteq> ''1900-02-29''
   \<and> convertExcelDate utc (JNum 61) \<noteq> ''1900-03-01''"
  by (simp add: convertExcelDate_def parseFloat_def date_eval)




section \<open>Evaluation of the examples\<close>


lemmas tree_eval = buildTree_def buildTree_b_def assemble_def firstPass_def firstPass_b_def
  firstPassStep_def firstPassStep_b_def resolveIdentity_def resolveIdentity_b_def pushEvent_def
  assignParent_def assignParent_b_def secondPass_def secondPass_b_def secondPassStep_def
  secondPassStep_b_def attachByName_def attachByName_b_def attach_def sortChildren_def
  sortBy_def findRoot_def personsWithNoParent_def noParent_def earliestOf_def getBirthDate_def
  falsy_def compareBirth_def birthOf_def has_def get_def set'_def values'_def mutate_def
  newPerson_def makeEvent_def nameContains_def nameMatches_def blank_def Let_def
  convertExcelDate_def parseFloat_def isDigit_def digitsVal_def digitVal_def

lemmas root_eval = findRoot_def personsWithNoParent_def noParent_def earliestOf_def
  getBirthDate_def falsy_def get_def values'_def isDigit_def digitsVal_def digitVal_def


lemma threeFounders_persons:
  "persons (buildTree utc sortBy threeFounders) =
     [(JStr ''Anna'', \<lparr>id' = JStr ''Anna'', name = ''Anna'',
         events = [\<lparr>type = ''Geburt'', date = ''1900'', partner = [], partnerBirthDeath = [],
                     parent1 = [], parent2 = []\<rparr>],
         children = [], parentId = JNull\<rparr>),
      (JStr ''Berta'', \<lparr>id' = JStr ''Berta'', name = ''Berta'',
         events = [\<lparr>type = ''Geburt'', date = ''1850'', partner = [], partnerBirthDeath = [],
                     parent1 = [], parent2 = []\<rparr>],
         children = [], parentId = JNull\<rparr>),
      (JStr ''Carl'', \<lparr>id' = JStr ''Carl'', name = ''Carl'',
         events = [\<lparr>type = ''Heirat'', date = [], partner = ''Dora'', partnerBirthDeath = [],
                     parent1 = [], parent2 = []\<rparr>],
         children = [], parentId = JNull\<rparr>)]"
  by (simp add: threeFounders_def tree_eval date_eval)

section \<open>Reconstruction of the focus from a list of names\<close>








section \<open>Root selection\<close>

lemma earliest_fold:
  "foldl earliestOf x xs \<in> set (x # xs)
   \<and> ((\<exists>c \<in> set (x # xs). \<not> falsy (getBirthDate c)) \<longrightarrow>
        \<not> falsy (getBirthDate (foldl earliestOf x xs))
        \<and> (\<forall>c \<in> set (x # xs). \<not> falsy (getBirthDate c) \<longrightarrow>
              the (getBirthDate (foldl earliestOf x xs)) \<le> the (getBirthDate c)))
   \<and> ((\<forall>c \<in> set (x # xs). falsy (getBirthDate c)) \<longrightarrow> foldl earliestOf x xs = last (x # xs))"
proof (induction xs rule: rev_induct)
  case Nil
  show ?case by simp
next
  case (snoc y ys)
  let ?r = "foldl earliestOf x ys"
  show ?case
  proof (cases "falsy (getBirthDate ?r)")
    case True
    then have none: "\<forall>c \<in> set (x # ys). falsy (getBirthDate c)"
      using snoc.IH by blast
    have "foldl earliestOf x (ys @ [y]) = y"
      using True by (simp add: earliestOf_def)
    then show ?thesis using none by auto
  next
    case known: False
    then have m: "\<forall>c \<in> set (x # ys). \<not> falsy (getBirthDate c) \<longrightarrow>
              the (getBirthDate ?r) \<le> the (getBirthDate c)"
      using snoc.IH by blast
    have rin: "?r \<in> set (x # ys)" using snoc.IH by blast
    show ?thesis
    proof (cases "falsy (getBirthDate y)")
      case True
      then have "foldl earliestOf x (ys @ [y]) = ?r"
        using known by (simp add: earliestOf_def)
      then show ?thesis using known m rin True by auto
    next
      case False
      show ?thesis
      proof (cases "the (getBirthDate ?r) < the (getBirthDate y)")
        case True
        then have "foldl earliestOf x (ys @ [y]) = ?r"
          using known False by (simp add: earliestOf_def)
        then show ?thesis using known m rin True by auto
      next
        case ge: False
        then have "foldl earliestOf x (ys @ [y]) = y"
          using known False by (simp add: earliestOf_def)
        then show ?thesis using known m rin ge False by fastforce
      qed
    qed
  qed
qed

text \<open>
  C4, as the code has it.  When no person without a parent id sits at the id \<open>0\<close>, and
  some person has no parent id, the root is one of the persons without a parent id (a
  parent id that resolves to nobody does not make its person a candidate).  If
  one of them has a known birth year (a year other than 0), the root has a known birth
  year and no candidate with a known birth year was born before it; if none has, the
  root is the last of the candidates in registry order.
\<close>

theorem findRoot_fallback:
  assumes "\<not> (\<exists>p0. get ps (JStr ''0'') = Some p0 \<and> noParent p0)"
    and "personsWithNoParent ps \<noteq> []"
  shows "\<exists>r. findRoot ps = Some r \<and> r \<in> set (personsWithNoParent ps)
           \<and> ((\<exists>c \<in> set (personsWithNoParent ps). \<not> falsy (getBirthDate c)) \<longrightarrow>
                 \<not> falsy (getBirthDate r)
                 \<and> (\<forall>c \<in> set (personsWithNoParent ps). \<not> falsy (getBirthDate c) \<longrightarrow>
                       the (getBirthDate r) \<le> the (getBirthDate c)))
           \<and> ((\<forall>c \<in> set (personsWithNoParent ps). falsy (getBirthDate c)) \<longrightarrow>
                 r = last (personsWithNoParent ps))"
proof -
  obtain x xs where c: "personsWithNoParent ps = x # xs"
    using assms(2) by (cases "personsWithNoParent ps") auto
  have "findRoot ps = Some (foldl earliestOf x xs)"
    using assms(1) c by (auto simp: findRoot_def split: option.splits)
  then show ?thesis
    using earliest_fold [of x xs] unfolding c by blast
qed

text \<open>
  C4, witness: of Anna (born 1900), Berta (born 1850) and Carl (no birth event), all
  without parents, Berta is the root.
\<close>

theorem findRoot_fallback_witness:
  "get (persons (buildTree utc sortBy threeFounders)) (JStr ''0'') = None
   \<and> map name (personsWithNoParent (persons (buildTree utc sortBy threeFounders)))
       = [''Anna'', ''Berta'', ''Carl'']
   \<and> map getBirthDate (personsWithNoParent (persons (buildTree utc sortBy threeFounders)))
       = [Some 1900, Some 1850, None]
   \<and> map_option name (findRoot (persons (buildTree utc sortBy threeFounders))) = Some ''Berta''"
  using findRoot_fallback [of "persons (buildTree utc sortBy threeFounders)"]
  by (simp add: threeFounders_persons root_eval)

text \<open>
  C4, as stated, fails for Anna and Berta, both without parents and without birth events:
  the root is Berta, the last candidate, not Anna, the first.  It also fails for Anna,
  born 1800, whose parent id resolves to nobody, and Berta, born 1900, without parent id:
  Anna is no candidate, and the root is Berta.
\<close>

theorem findRoot_takes_last_unknown:
  "map_option name (rootPerson (buildTree utc sortBy annaBerta)) = Some ''Berta''
   \<and> map name (personsWithNoParent (persons (buildTree utc sortBy annaBerta))) = [''Anna'', ''Berta'']
   \<and> map getBirthDate (personsWithNoParent (persons (buildTree utc sortBy annaBerta))) = [None, None]
   \<and> get (persons (buildTree utc sortBy annaBerta)) (JStr ''0'') = None
   \<and> map (\<lambda>(k, p). (name p, parentId p, getBirthDate p)) (persons (buildTree utc sortBy danglingParent))
       = [(''Anna'', JStr ''999'', Some 1800), (''Berta'', JNull, Some 1900)]
   \<and> get (persons (buildTree utc sortBy danglingParent)) (JStr ''999'') = None
   \<and> get (persons (buildTree utc sortBy danglingParent)) (JStr ''0'') = None
   \<and> map_option name (rootPerson (buildTree utc sortBy danglingParent)) = Some ''Berta''"
  by (simp add: annaBerta_def danglingParent_def tree_eval date_eval)

section \<open>Identity of persons and parent hints in the first pass\<close>

lemma get_set': "get (set' ps k v) k' = (if k' = k then Some v else get ps k')"
  by (simp add: get_def set'_def update_conv')

lemma get_mutate:
  "get (mutate ps k f) k' = (if k' = k then map_option f (get ps k) else get ps k')"
  by (cases "map_of ps k") (simp_all add: get_def mutate_def map_of_map_entry)

lemma has_get: "has ps k = (get ps k \<noteq> None)"
  by (simp add: has_def get_def)

lemma distinct_set': "distinct (map fst ps) \<Longrightarrow> distinct (map fst (set' ps k v))"
  by (simp add: set'_def distinct_update)

lemma distinct_mutate: "distinct (map fst ps) \<Longrightarrow> distinct (map fst (mutate ps k f))"
  by (simp add: mutate_def distinct_map_entry)

lemma event_kept_mutate:
  assumes "\<exists>p. get ps k = Some p \<and> e \<in> set (events p)"
    and "\<And>q. set (events q) \<subseteq> set (events (f q))"
  shows "\<exists>p. get (mutate ps k' f) k = Some p \<and> e \<in> set (events p)"
  using assms by (auto simp: get_mutate)

lemma assignParent_b_distinct:
  "distinct (map fst ps) \<Longrightarrow> distinct (map fst (assignParent_b ps k record))"
  by (simp add: assignParent_b_def distinct_mutate split: option.splits)

lemma assignParent_b_keeps:
  assumes "\<exists>p. get ps k = Some p \<and> e \<in> set (events p)"
  shows "\<exists>p. get (assignParent_b ps k' record) k = Some p \<and> e \<in> set (events p)"
proof -
  have "\<exists>p. get (mutate ps k' (\<lambda>p. p\<lparr>parentId := x\<rparr>)) k = Some p \<and> e \<in> set (events p)" for x
    using assms by (rule event_kept_mutate) simp
  then show ?thesis
    using assms by (simp add: assignParent_b_def split: option.splits)
qed

lemma resolveIdentity_b_distinct:
  "distinct (map fst ps) \<Longrightarrow> distinct (map fst (fst (resolveIdentity_b ps record)))"
  by (simp add: resolveIdentity_b_def Let_def distinct_set' split: option.splits)

lemma resolveIdentity_b_keeps:
  assumes "\<exists>p. get ps k = Some p \<and> e \<in> set (events p)"
    and "truthy (AnchorId record) \<or> JStr (Person record) \<noteq> k"
  shows "\<exists>p. get (fst (resolveIdentity_b ps record)) k = Some p \<and> e \<in> set (events p)"
  using assms
  by (auto simp: resolveIdentity_b_def Let_def get_set' has_get split: option.splits)

lemma resolveIdentity_b_anchor:
  assumes "truthy (AnchorId record)"
  shows "snd (resolveIdentity_b ps record) = JStr (String (AnchorId record))
       \<and> get (fst (resolveIdentity_b ps record)) (JStr (String (AnchorId record))) \<noteq> None"
  using assms by (auto simp: resolveIdentity_b_def Let_def get_set' has_get)

lemma firstPassStep_b_distinct:
  "distinct (map fst ps) \<Longrightarrow> distinct (map fst (firstPassStep_b tza ps record))"
  using resolveIdentity_b_distinct [of ps "record"]
  by (cases "resolveIdentity_b ps record")
     (simp add: firstPassStep_b_def pushEvent_def assignParent_b_distinct distinct_mutate)

lemma firstPassStep_b_keeps:
  assumes "\<exists>p. get ps k = Some p \<and> e \<in> set (events p)"
    and "truthy (AnchorId record) \<or> JStr (Person record) \<noteq> k"
  shows "\<exists>p. get (firstPassStep_b tza ps record) k = Some p \<and> e \<in> set (events p)"
proof (cases "Person record = []")
  case True
  then show ?thesis using assms(1) by (simp add: firstPassStep_b_def)
next
  case False
  obtain ps1 anchorId where r: "resolveIdentity_b ps record = (ps1, anchorId)"
    by (cases "resolveIdentity_b ps record")
  have "\<exists>p. get ps1 k = Some p \<and> e \<in> set (events p)"
    using resolveIdentity_b_keeps [OF assms] r by simp
  then have "\<exists>p. get (pushEvent tza ps1 anchorId record) k = Some p \<and> e \<in> set (events p)"
    unfolding pushEvent_def by (rule event_kept_mutate) auto
  then have "\<exists>p. get (assignParent_b (pushEvent tza ps1 anchorId record) anchorId record) k
                    = Some p
                  \<and> e \<in> set (events p)"
    by (rule assignParent_b_keeps)
  then show ?thesis using False r by (simp add: firstPassStep_b_def)
qed

lemma firstPassStep_b_adds:
  assumes "Person record \<noteq> []" "truthy (AnchorId record)"
  shows "\<exists>p. get (firstPassStep_b tza ps record) (JStr (String (AnchorId record))) = Some p
            \<and> makeEvent tza record \<in> set (events p)"
proof -
  let ?k = "JStr (String (AnchorId record))"
  obtain ps1 where r: "resolveIdentity_b ps record = (ps1, ?k)" and g: "get ps1 ?k \<noteq> None"
    using resolveIdentity_b_anchor [OF assms(2), of ps]
    by (cases "resolveIdentity_b ps record") auto
  have "\<exists>p. get (pushEvent tza ps1 ?k record) ?k = Some p
            \<and> makeEvent tza record \<in> set (events p)"
    using g by (auto simp: pushEvent_def get_mutate)
  then have "\<exists>p. get (assignParent_b (pushEvent tza ps1 ?k record) ?k record) ?k = Some p
                  \<and> makeEvent tza record \<in> set (events p)"
    by (rule assignParent_b_keeps)
  then show ?thesis using assms(1) r by (simp add: firstPassStep_b_def)
qed

lemma foldl_firstPassStep_b_distinct:
  "distinct (map fst ps) \<Longrightarrow> distinct (map fst (foldl (firstPassStep_b tza) ps data))"
  by (induction data arbitrary: ps) (simp_all add: firstPassStep_b_distinct)

lemma foldl_firstPassStep_b_keeps:
  assumes "\<forall>r \<in> set data. truthy (AnchorId r) \<or> JStr (Person r) \<noteq> k"
    and "\<exists>p. get ps k = Some p \<and> e \<in> set (events p)"
  shows "\<exists>p. get (foldl (firstPassStep_b tza) ps data) k = Some p \<and> e \<in> set (events p)"
  using assms
proof (induction data arbitrary: ps)
  case Nil
  then show ?case by simp
next
  case (Cons r data)
  have "\<exists>p. get (firstPassStep_b tza ps r) k = Some p \<and> e \<in> set (events p)"
    using Cons.prems by (intro firstPassStep_b_keeps) auto
  then show ?case using Cons.IH Cons.prems by simp
qed

text \<open>
  In the second copy, the events of a record with an anchor id are found, after the first
  pass, on the person stored under the normalized anchor id, and the keys of the registry
  are distinct, provided that no record without anchor id names a person by that id.
\<close>

lemma firstPass_b_accumulates:
  assumes "record \<in> set data" "Person record \<noteq> []" "truthy (AnchorId record)"
    and "\<forall>r \<in> set data. truthy (AnchorId r) \<or> Person r \<noteq> String (AnchorId record)"
  shows "distinct (map fst (firstPass_b tza data))
       \<and> (\<exists>p. get (firstPass_b tza data) (JStr (String (AnchorId record))) = Some p
              \<and> makeEvent tza record \<in> set (events p))"
proof -
  let ?k = "JStr (String (AnchorId record))"
  have c: "\<forall>r \<in> set data. truthy (AnchorId r) \<or> JStr (Person r) \<noteq> ?k"
    using assms(4) by auto
  have "\<exists>p. get (foldl (firstPassStep_b tza) ps data) ?k = Some p
            \<and> makeEvent tza record \<in> set (events p)"
    if "record \<in> set data" "\<forall>r \<in> set data. truthy (AnchorId r) \<or> JStr (Person r) \<noteq> ?k"
    for ps data
    using that
  proof (induction data arbitrary: ps)
    case Nil
    then show ?case by simp
  next
    case (Cons r data)
    show ?case
    proof (cases "r = record")
      case True
      have "\<exists>p. get (firstPassStep_b tza ps r) ?k = Some p
                \<and> makeEvent tza record \<in> set (events p)"
        unfolding True using assms(2,3) by (rule firstPassStep_b_adds)
      then show ?thesis
        using foldl_firstPassStep_b_keeps
            [where data = data and k = ?k and ps = "firstPassStep_b tza ps r"
               and e = "makeEvent tza record" and tza = tza]
          Cons.prems by simp
    next
      case False
      then show ?thesis using Cons by simp
    qed
  qed
  then show ?thesis
    using assms(1) c by (simp add: firstPass_b_def foldl_firstPassStep_b_distinct)
qed

text \<open>
  C5, failing inputs.  In the second copy, a record without anchor id whose person name
  is nobody's name creates a person under that name with \<open>set\<close>, and so replaces
  the person (and the events) stored under an anchor id equal to that name: of the two
  records with the anchor id \<open>Bob\<close>, one person is left, and it carries the event of the
  second only.  In \<^verbatim>\<open>widgets/fam-tree/fam-tree.js\<close> the anchor id is the map key as it
  stands, so the number 5 and the string \<open>5\<close> give two persons; the second copy gives one
  person with both events.
\<close>

theorem anchor_identity_lost:
  "map (\<lambda>(k, p). (k, name p, map type (events p))) (persons (buildTree_b utc sortBy anchorNamedBob))
     = [(JStr ''Bob'', ''Bob'', [''Heirat'', ''Tod''])]
   \<and> map (\<lambda>(k, p). (k, name p, map type (events p))) (persons (buildTree utc sortBy anchorFive))
     = [(JNum 5, ''Alice'', [''Geburt'']), (JStr ''5'', ''Alice'', [''Tod''])]
   \<and> map (\<lambda>(k, p). (k, name p, map type (events p))) (persons (buildTree_b utc sortBy anchorFive))
     = [(JStr ''5'', ''Alice'', [''Geburt'', ''Tod''])]"
  by (simp add: anchorNamedBob_def anchorFive_def tree_eval date_eval)

text \<open>
  C5, witness: the person under the anchor id \<open>Bob\<close> carries the events of the last two
  records only.
\<close>

theorem anchor_identity_lost_witness:
  "map (\<lambda>(k, p). (k, name p, map type (events p))) (persons (buildTree_b utc sortBy anchorNamedBob))
     = [(JStr ''Bob'', ''Bob'', [''Heirat'', ''Tod''])]"
  using anchor_identity_lost by blast

text \<open>
  C7, failing input.  The first pass of \<^verbatim>\<open>widgets/fam-tree/fam-tree.js\<close> tests whether
  a person's name equals or contains the hint, not whether the hint contains the name:
  the hint \<open>Hans Mueller\<close> does not find Hans.  The second pass then works from the hint
  of the child's first record, which matches nobody, and the child ends without parent;
  the second copy of the file assigns Hans in the first pass.
\<close>

theorem first_pass_misses_contained_name:
  "map (\<lambda>(k, p). (name p, parentId p)) (firstPass utc hansKind)
     = [(''Hans'', JNull), (''Kind'', JNull)]
   \<and> map (\<lambda>(k, p). (name p, parentId p)) (firstPass_b utc hansKind)
     = [(''Hans'', JNull), (''Kind'', JStr ''Hans'')]
   \<and> map (\<lambda>(k, p). (name p, parentId p, children p)) (persons (buildTree utc sortBy hansKind))
     = [(''Hans'', JNull, []), (''Kind'', JNull, [])]
   \<and> map (\<lambda>(k, p). (name p, parentId p, children p)) (persons (buildTree_b utc sortBy hansKind))
     = [(''Hans'', JNull, [JStr ''Kind'']), (''Kind'', JStr ''Hans'', [])]"
  by (simp add: hansKind_def tree_eval date_eval)

text \<open>
  C7, witness: the parent ids after the first pass of \<^verbatim>\<open>widgets/fam-tree/fam-tree.js\<close>.
\<close>

theorem first_pass_misses_contained_name_witness:
  "map (\<lambda>(k, p). (name p, parentId p)) (firstPass utc hansKind)
     = [(''Hans'', JNull), (''Kind'', JNull)]"
  using first_pass_misses_contained_name by blast

section \<open>Descendant count\<close>

lemma hansHans_tree:
  "buildTree utc sortBy hansHans = \<lparr>persons = [(JStr ''Hans'', hansSelf)], rootPerson = Some hansSelf,
      currentRoot = Some hansSelf\<rparr>"
  "buildTree_b utc sortBy hansHans = \<lparr>persons = [(JStr ''Hans'', hansSelf)], rootPerson = Some hansSelf,
      currentRoot = Some hansSelf\<rparr>"
  by (simp_all add: hansHans_def hansSelf_def tree_eval)

lemma countDescendants_self: "countDescendants depth [(JStr ''Hans'', hansSelf)] hansSelf = None"
proof (induction depth)
  case 0
  show ?case by simp
next
  case (Suc depth)
  have c: "children hansSelf = [JStr ''Hans'']" by (simp add: hansSelf_def)
  show ?case
    by (simp add: c get_def Suc.IH)
qed

text \<open>
  C10, failing input.  A record whose parent hint is the person's own name makes the
  person its own parent and its own child, in both versions of \<open>buildTree\<close>;
  \<open>countDescendants\<close> on that person returns within no depth of recursion.
\<close>

theorem countDescendants_diverges:
  "rootPerson (buildTree utc sortBy hansHans) = Some hansSelf
   \<and> rootPerson (buildTree_b utc sortBy hansHans) = Some hansSelf
   \<and> children hansSelf = [id' hansSelf]
   \<and> (\<forall>depth. countDescendants depth (persons (buildTree utc sortBy hansHans)) hansSelf = None)
   \<and> (\<forall>depth. countDescendants depth (persons (buildTree_b utc sortBy hansHans)) hansSelf = None)"
  by (simp add: hansHans_tree countDescendants_self) (simp add: hansSelf_def)

text \<open>
  C10, witness: no result within depth 1000.
\<close>

theorem countDescendants_diverges_witness:
  "countDescendants 1000 (persons (buildTree utc sortBy hansHans)) hansSelf = None"
  using countDescendants_diverges by blast

section \<open>The path to the root\<close>

lemma get_in_values: "get ps k = Some p \<Longrightarrow> p \<in> set (values' ps)"
  by (auto simp: get_def values'_def dest: map_of_SomeD intro: rev_image_eqI)

lemma parentOf_in_values: "parentOf ps current = Some p \<Longrightarrow> p \<in> set (values' ps)"
  by (auto simp: parentOf_def get_in_values split: if_splits)

lemma walkUp_invariant:
  "(\<forall>q \<in> set (walkUp ps visited current). id' q \<notin> set visited)
   \<and> distinct (map id' (walkUp ps visited current))
   \<and> set (walkUp ps visited current) \<subseteq> ancestors ps current"
proof (induction ps visited current rule: walkUp.induct)
  case (1 ps visited current)
  show ?case
  proof (cases "id' current \<in> set visited")
    case True
    then show ?thesis by (simp add: walkUp.simps [of ps visited current])
  next
    case nv: False
    show ?thesis
    proof (cases "parentOf ps current")
      case None
      then show ?thesis
        using nv by (simp add: walkUp.simps [of ps visited current] ancestors_def)
    next
      case (Some parent)
      let ?rest = "walkUp ps (id' current # visited) parent"
      have w: "walkUp ps visited current = current # ?rest"
        using nv Some by (simp add: walkUp.simps [of ps visited current])
      have ih: "(\<forall>q \<in> set ?rest. id' q \<notin> set (id' current # visited))
                \<and> distinct (map id' ?rest) \<and> set ?rest \<subseteq> ancestors ps parent"
        using "1.IH" [OF nv Some] .
      have step: "(current, parent) \<in> ancestry ps"
        using Some by (simp add: ancestry_def)
      have "ancestors ps parent \<subseteq> ancestors ps current"
        using step by (auto simp: ancestors_def intro: converse_rtrancl_into_rtrancl)
      moreover have "current \<in> ancestors ps current"
        by (simp add: ancestors_def)
      ultimately show ?thesis
        unfolding w using ih nv by auto
    qed
  qed
qed

lemma ancestors_in_values: "ancestors ps p \<subseteq> insert p (set (values' ps))"
proof
  fix q assume "q \<in> ancestors ps p"
  then have "(p, q) \<in> (ancestry ps)\<^sup>*" by (simp add: ancestors_def)
  then show "q \<in> insert p (set (values' ps))"
    by (induction rule: rtrancl_induct) (auto simp: ancestry_def dest: parentOf_in_values)
qed

lemma finite_ancestors: "finite (ancestors ps p)"
  by (rule finite_subset [OF ancestors_in_values]) simp

lemma findRoot_nonempty: "values' ps \<noteq> [] \<Longrightarrow> findRoot ps \<noteq> None"
  by (auto simp: findRoot_def split: option.splits list.splits)

text \<open>
  C6.  For every person \<open>p\<close> of an assembled tree, cyclic parent links or not,
  \<open>getPathToRoot\<close> returns a path: the persons visited by the upward walk, last visited
  first, with the root put in front when the walk did not end at it.  The walk visits
  every id at most once, visits ancestors of \<open>p\<close> only (\<open>p\<close> included), and so takes
  at most as many steps as \<open>p\<close> has ancestors, which is at most the number of persons.
\<close>

theorem getPathToRoot_bounded:
  assumes "p \<in> set (values' (persons (assemble sortFn linked)))"
  shows "(\<exists>rootP. rootPerson (assemble sortFn linked) = Some rootP
            \<and> (getPathToRoot (assemble sortFn linked) p
                  = Inr (rev (walkUp (persons (assemble sortFn linked)) [] p))
               \<or> getPathToRoot (assemble sortFn linked) p
                  = Inr (rootP # rev (walkUp (persons (assemble sortFn linked)) [] p))))
       \<and> distinct (map id' (walkUp (persons (assemble sortFn linked)) [] p))
       \<and> set (walkUp (persons (assemble sortFn linked)) [] p)
            \<subseteq> ancestors (persons (assemble sortFn linked)) p
       \<and> length (walkUp (persons (assemble sortFn linked)) [] p)
            \<le> card (ancestors (persons (assemble sortFn linked)) p)
       \<and> length (walkUp (persons (assemble sortFn linked)) [] p)
            \<le> length (persons (assemble sortFn linked))"
proof -
  let ?t = "assemble sortFn linked"
  let ?ps = "persons ?t"
  let ?w = "walkUp ?ps [] p"
  have inv: "distinct (map id' ?w)" "set ?w \<subseteq> ancestors ?ps p"
    using walkUp_invariant [of ?ps "[]" p] by simp_all
  have dw: "distinct ?w"
    using inv(1) by (simp add: distinct_map)
  have "values' ?ps \<noteq> []" using assms by auto
  then have "findRoot ?ps \<noteq> None" by (rule findRoot_nonempty)
  then obtain rootP where r: "rootPerson ?t = Some rootP"
    by (auto simp: assemble_def Let_def)
  have path: "getPathToRoot ?t p = Inr (rev ?w)
              \<or> getPathToRoot ?t p = Inr (rootP # rev ?w)"
    using r by (simp add: getPathToRoot_def Let_def)
  have "length ?w = card (set ?w)"
    using dw by (simp add: distinct_card)
  also have "\<dots> \<le> card (ancestors ?ps p)"
    using inv(2) finite_ancestors by (rule card_mono [rotated])
  finally have c: "length ?w \<le> card (ancestors ?ps p)" .
  have "set ?w \<subseteq> set (values' ?ps)"
    using inv(2) ancestors_in_values [of ?ps p] assms by auto
  then have "card (set ?w) \<le> card (set (values' ?ps))"
    by (simp add: card_mono)
  also have "\<dots> \<le> length (values' ?ps)" by (rule card_length)
  finally have l: "length ?w \<le> length ?ps"
    using dw by (simp add: distinct_card values'_def)
  show ?thesis using r path inv c l by blast
qed

lemma cycleAB_tree:
  "buildTree utc sortBy cycleAB =
     \<lparr>persons = [(JStr ''a'', annaCycle), (JStr ''b'', bertCycle)],
      rootPerson = Some annaCycle, currentRoot = Some annaCycle\<rparr>"
  by (simp add: cycleAB_def annaCycle_def bertCycle_def tree_eval)

lemma cycleAB_assembled:
  "assemble sortBy (secondPass (firstPass utc cycleAB)) =
     \<lparr>persons = [(JStr ''a'', annaCycle), (JStr ''b'', bertCycle)],
      rootPerson = Some annaCycle, currentRoot = Some annaCycle\<rparr>"
  using cycleAB_tree by (simp add: buildTree_def)

lemma cycleAB_walk:
  "walkUp [(JStr ''a'', annaCycle), (JStr ''b'', bertCycle)] [] annaCycle = [annaCycle, bertCycle]"
  by (simp add: walkUp.simps parentOf_def get_def annaCycle_def bertCycle_def)

text \<open>
  C6, witness: Anna and Bert are each the parent of the other.  The walk from Anna
  visits Anna and Bert and stops; the path is Anna (the root), Bert, Anna.
\<close>

theorem getPathToRoot_bounded_witness:
  "annaCycle \<in> set (values' (persons (assemble sortBy (secondPass (firstPass utc cycleAB)))))
   \<and> parentOf (persons (assemble sortBy (secondPass (firstPass utc cycleAB)))) annaCycle = Some bertCycle
   \<and> parentOf (persons (assemble sortBy (secondPass (firstPass utc cycleAB)))) bertCycle = Some annaCycle
   \<and> walkUp (persons (assemble sortBy (secondPass (firstPass utc cycleAB)))) [] annaCycle
       = [annaCycle, bertCycle]
   \<and> getPathToRoot (assemble sortBy (secondPass (firstPass utc cycleAB))) annaCycle
       = Inr [annaCycle, bertCycle, annaCycle]
   \<and> 2 \<le> card (ancestors (persons (assemble sortBy (secondPass (firstPass utc cycleAB)))) annaCycle)"
  using getPathToRoot_bounded
      [where p = annaCycle and sortFn = sortBy and linked = "secondPass (firstPass utc cycleAB)"]
  by (simp add: cycleAB_assembled cycleAB_walk values'_def getPathToRoot_def)
     (simp add: parentOf_def get_def annaCycle_def bertCycle_def)

section \<open>The two insertion sorts meet the contract of the array sort\<close>

lemma sortContract_mset: "sortContract sortFn \<Longrightarrow> mset (sortFn cmp xs) = mset xs"
  by (simp add: sortContract_def)

lemma sortContract_sorted:
  assumes "sortContract sortFn"
    and "\<And>a b c. R a b \<Longrightarrow> R b c \<Longrightarrow> R a c"
    and "\<And>a b. cmp a b < 0 \<Longrightarrow> R a b"
    and "\<And>a b. 0 < cmp a b \<Longrightarrow> R b a"
    and "\<And>a b. cmp a b = 0 \<Longrightarrow> R a b \<and> R b a"
  shows "sorted_wrt R (sortFn cmp xs)"
proof -
  have "transp R"
    using assms(2) by (auto intro: transpI)
  moreover have "agreesWith cmp R"
    using assms(3-5) by (simp add: agreesWith_def)
  ultimately show ?thesis
    using assms(1) by (simp add: sortContract_def)
qed

lemma set_insertBy: "set (insertBy cmp x ys) = insert x (set ys)"
  by (induction ys) auto

lemma mset_insertBy: "mset (insertBy cmp x ys) = add_mset x (mset ys)"
  by (induction ys) auto

lemma sorted_wrt_insertBy:
  assumes trans: "\<And>a b c. R a b \<Longrightarrow> R b c \<Longrightarrow> R a c"
    and before: "\<And>a b. cmp a b < 0 \<Longrightarrow> R a b"
    and after: "\<And>a b. \<not> cmp a b < 0 \<Longrightarrow> R b a"
    and sorted: "sorted_wrt R ys"
  shows "sorted_wrt R (insertBy cmp x ys)"
  using sorted
proof (induction ys)
  case Nil
  show ?case by simp
next
  case (Cons y ys)
  show ?case
  proof (cases "cmp x y < 0")
    case True
    then have xy: "R x y" by (rule before)
    have "\<forall>z \<in> set ys. R x z"
      using Cons.prems xy trans by auto
    then show ?thesis using True xy Cons.prems by simp
  next
    case False
    then have yx: "R y x" by (rule after)
    have "sorted_wrt R (insertBy cmp x ys)"
      using Cons by simp
    then show ?thesis
      using False yx Cons.prems by (simp add: set_insertBy)
  qed
qed

lemma sorted_wrt_foldl_insertBy:
  assumes "\<And>a b c. R a b \<Longrightarrow> R b c \<Longrightarrow> R a c"
    and "\<And>a b. cmp a b < 0 \<Longrightarrow> R a b"
    and "\<And>a b. \<not> cmp a b < 0 \<Longrightarrow> R b a"
  shows "sorted_wrt R acc \<Longrightarrow> sorted_wrt R (foldl (\<lambda>sorted x. insertBy cmp x sorted) acc xs)"
proof (induction xs arbitrary: acc)
  case Nil
  then show ?case by simp
next
  case (Cons x xs)
  have "sorted_wrt R (insertBy cmp x acc)"
    using assms Cons.prems by (rule sorted_wrt_insertBy)
  then show ?case using Cons.IH by simp
qed

lemma sorted_wrt_sortBy:
  assumes "\<And>a b c. R a b \<Longrightarrow> R b c \<Longrightarrow> R a c"
    and "\<And>a b. cmp a b < 0 \<Longrightarrow> R a b"
    and "\<And>a b. \<not> cmp a b < 0 \<Longrightarrow> R b a"
  shows "sorted_wrt R (sortBy cmp xs)"
  unfolding sortBy_def
proof (rule sorted_wrt_foldl_insertBy [where R = R])
  show "R a c" if "R a b" "R b c" for a b c using that by (rule assms(1))
  show "R a b" if "cmp a b < 0" for a b using that by (rule assms(2))
  show "R b a" if "\<not> cmp a b < 0" for a b using that by (rule assms(3))
  show "sorted_wrt R []" by simp
qed

lemma mset_foldl_insertBy:
  "mset (foldl (\<lambda>sorted x. insertBy cmp x sorted) acc xs) = mset acc + mset xs"
  by (induction xs arbitrary: acc) (simp_all add: mset_insertBy)

lemma mset_sortBy: "mset (sortBy cmp xs) = mset xs"
  by (simp add: sortBy_def mset_foldl_insertBy)

lemma sortBy_contract: "sortContract sortBy"
  unfolding sortContract_def
proof (intro allI conjI impI)
  fix cmp :: "'a \<Rightarrow> 'a \<Rightarrow> int" and xs
  show "mset (sortBy cmp xs) = mset xs"
    by (rule mset_sortBy)
next
  fix cmp :: "'a \<Rightarrow> 'a \<Rightarrow> int" and xs and R :: "'a \<Rightarrow> 'a \<Rightarrow> bool"
  assume a: "transp R \<and> agreesWith cmp R"
  show "sorted_wrt R (sortBy cmp xs)"
  proof (rule sorted_wrt_sortBy)
    show "R a c" if "R a b" "R b c" for a b c
      using a that by (auto dest: transpD)
    show "R a b" if "cmp a b < 0" for a b
      using a that by (simp add: agreesWith_def)
    show "R b a" if "\<not> cmp a b < 0" for a b
    proof (cases "cmp a b = 0")
      case True
      then show ?thesis using a by (simp add: agreesWith_def)
    next
      case False
      then have "0 < cmp a b" using that by simp
      then show ?thesis using a by (simp add: agreesWith_def)
    qed
  qed
qed

lemma set_insertBackward: "set (insertBackward cmp x ys) = insert x (set ys)"
  by (induction ys) auto

lemma mset_insertBackward: "mset (insertBackward cmp x ys) = add_mset x (mset ys)"
  by (induction ys) auto

lemma sorted_wrt_insertBackward:
  assumes trans: "\<And>a b c. R a b \<Longrightarrow> R b c \<Longrightarrow> R a c"
    and moved: "\<And>a b. 0 < cmp a b \<Longrightarrow> R b a"
    and stays: "\<And>a b. \<not> 0 < cmp a b \<Longrightarrow> R a b"
    and sorted: "sorted_wrt R ys"
  shows "sorted_wrt R (insertBackward cmp x ys)"
  using sorted
proof (induction ys)
  case Nil
  show ?case by simp
next
  case (Cons y ys)
  show ?case
  proof (cases "list_all (\<lambda>z. 0 < cmp z x) (y # ys)")
    case True
    then have "\<forall>z \<in> set (y # ys). R x z"
      using moved by (auto simp: list_all_iff)
    moreover have "insertBackward cmp x (y # ys) = x # y # ys"
      using True by (simp only: insertBackward.simps if_True)
    ultimately show ?thesis using Cons.prems by simp
  next
    case False
    then obtain z where z: "z \<in> set (y # ys)" "\<not> 0 < cmp z x"
      by (auto simp: list_all_iff)
    then have zx: "R z x" using stays by blast
    have yx: "R y x"
    proof (cases "z = y")
      case True
      then show ?thesis using zx by simp
    next
      case False
      then have "R y z" using z(1) Cons.prems by auto
      then show ?thesis using zx by (rule trans)
    qed
    have eq: "insertBackward cmp x (y # ys) = y # insertBackward cmp x ys"
      using False by (simp only: insertBackward.simps if_False)
    have "sorted_wrt R (insertBackward cmp x ys)"
      using Cons by simp
    then show ?thesis
      unfolding eq using yx Cons.prems by (simp add: set_insertBackward)
  qed
qed

lemma sorted_wrt_foldl_insertBackward:
  assumes "\<And>a b c. R a b \<Longrightarrow> R b c \<Longrightarrow> R a c"
    and "\<And>a b. 0 < cmp a b \<Longrightarrow> R b a"
    and "\<And>a b. \<not> 0 < cmp a b \<Longrightarrow> R a b"
  shows "sorted_wrt R acc \<Longrightarrow>
         sorted_wrt R (foldl (\<lambda>sorted x. insertBackward cmp x sorted) acc xs)"
proof (induction xs arbitrary: acc)
  case Nil
  then show ?case by simp
next
  case (Cons x xs)
  have "sorted_wrt R (insertBackward cmp x acc)"
    using assms Cons.prems by (rule sorted_wrt_insertBackward)
  then show ?case using Cons.IH by simp
qed

lemma mset_foldl_insertBackward:
  "mset (foldl (\<lambda>sorted x. insertBackward cmp x sorted) acc xs) = mset acc + mset xs"
  by (induction xs arbitrary: acc) (simp_all add: mset_insertBackward)

lemma sortByBackward_contract: "sortContract sortByBackward"
  unfolding sortContract_def
proof (intro allI conjI impI)
  fix cmp :: "'a \<Rightarrow> 'a \<Rightarrow> int" and xs
  show "mset (sortByBackward cmp xs) = mset xs"
    by (simp add: sortByBackward_def mset_foldl_insertBackward)
next
  fix cmp :: "'a \<Rightarrow> 'a \<Rightarrow> int" and xs and R :: "'a \<Rightarrow> 'a \<Rightarrow> bool"
  assume a: "transp R \<and> agreesWith cmp R"
  show "sorted_wrt R (sortByBackward cmp xs)"
    unfolding sortByBackward_def
  proof (rule sorted_wrt_foldl_insertBackward [where R = R])
    show "R a c" if "R a b" "R b c" for a b c
      using a that by (auto dest: transpD)
    show "R b a" if "0 < cmp a b" for a b
      using a that by (simp add: agreesWith_def)
    show "R a b" if "\<not> 0 < cmp a b" for a b
    proof (cases "cmp a b = 0")
      case True
      then show ?thesis using a by (simp add: agreesWith_def)
    next
      case False
      then have "cmp a b < 0" using that by simp
      then show ?thesis using a by (simp add: agreesWith_def)
    qed
    show "sorted_wrt R []" by simp
  qed
qed

text \<open>
  What \<open>sortBy\<close> does beyond the contract: elements that the comparison function never
  puts strictly before another keep their order.
\<close>

lemma insertBy_last: "(\<And>y. \<not> cmp x y < 0) \<Longrightarrow> insertBy cmp x ys = ys @ [x]"
  by (induction ys) auto

lemma filter_insertBy:
  assumes "\<And>x y. P x \<Longrightarrow> \<not> cmp x y < 0"
  shows "filter P (insertBy cmp x ys) = filter P ys @ filter P [x]"
proof (cases "P x")
  case True
  then have "insertBy cmp x ys = ys @ [x]"
    using assms by (intro insertBy_last) simp
  then show ?thesis by simp
next
  case False
  then have "filter P (insertBy cmp x ys) = filter P ys"
    by (induction ys) auto
  then show ?thesis using False by simp
qed

lemma filter_foldl_insertBy:
  assumes "\<And>x y. P x \<Longrightarrow> \<not> cmp x y < 0"
  shows "filter P (foldl (\<lambda>sorted x. insertBy cmp x sorted) acc xs) = filter P acc @ filter P xs"
proof (induction xs arbitrary: acc)
  case Nil
  show ?case by simp
next
  case (Cons x xs)
  show ?case
    using Cons.IH [of "insertBy cmp x acc"] filter_insertBy [of P cmp x acc, OF assms]
    by simp
qed

lemma filter_sortBy:
  assumes "\<And>x y. P x \<Longrightarrow> \<not> cmp x y < 0"
  shows "filter P (sortBy cmp xs) = filter P xs"
  using filter_foldl_insertBy [of P cmp "[]" xs, OF assms] by (simp add: sortBy_def)

section \<open>Order of the children\<close>

lemma get_sortChildren:
  "get (sortChildren sortFn ps) c
     = map_option (\<lambda>q. q\<lparr>children :=
          sortFn (\<lambda>a b. compareBirth (birthOf ps a) (birthOf ps b)) (children q)\<rparr>) (get ps c)"
proof -
  have "map_of (map (\<lambda>(k, q). (k, f q)) ps) c = map_option f (map_of ps c)"
    for f :: "person \<Rightarrow> person"
    by (induction ps) auto
  then show ?thesis
    by (simp add: get_def sortChildren_def)
qed

lemma birthOf_sortChildren: "birthOf (sortChildren sortFn ps) c = birthOf ps c"
  by (cases "get ps c") (simp_all add: birthOf_def get_sortChildren getBirthDate_def)

lemma persons_assemble: "persons (assemble sortFn linked) = sortChildren sortFn linked"
  by (simp add: assemble_def Let_def)

lemma children_sortChildren:
  "i < length ps \<Longrightarrow>
   children (snd (sortChildren sortFn ps ! i))
     = sortFn (\<lambda>a b. compareBirth (birthOf ps a) (birthOf ps b)) (children (snd (ps ! i)))"
  by (simp add: sortChildren_def split_beta)

text \<open>
  With the insertion sort \<open>sortBy\<close>, the children without known birth year keep the
  order in which the second pass found them.  This is a property of that sort, not of
  the comparison function, which answers 1 on two such children in either order.
\<close>

lemma children_unknown_order_sortBy:
  assumes "i < length linked"
  shows "filter (\<lambda>c. falsy (birthOf (persons (assemble sortBy linked)) c))
             (children (snd (persons (assemble sortBy linked) ! i)))
           = filter (\<lambda>c. falsy (birthOf (persons (assemble sortBy linked)) c))
               (children (snd (linked ! i)))"
proof -
  let ?cmp = "\<lambda>a b. compareBirth (birthOf linked a) (birthOf linked b)"
  have ch: "children (snd (persons (assemble sortBy linked) ! i))
              = sortBy ?cmp (children (snd (linked ! i)))"
    using assms by (simp add: persons_assemble children_sortChildren)
  have f: "filter (\<lambda>c. falsy (birthOf linked c)) (sortBy ?cmp (children (snd (linked ! i))))
           = filter (\<lambda>c. falsy (birthOf linked c)) (children (snd (linked ! i)))"
    by (rule filter_sortBy) (simp add: compareBirth_def)
  show ?thesis
    unfolding ch using f by (simp add: persons_assemble birthOf_sortChildren)
qed

text \<open>
  C8, as the code has it, on every host whose array sort meets \<open>sortContract\<close>.  A birth
  year counts as known when \<open>getBirthDate\<close> gives a number other than 0 (the comparison
  function tests the years with \<open>!\<close>).  After assembly, the children of every person
  (the entry \<open>i\<close> of the registry) are ordered so that no child without known birth year
  comes before a child with one, and the known birth years do not decrease; the list
  holds the children found by the second pass.  Nothing is stated of the order of the
  children without known birth year among themselves: the comparison function answers 1
  on two of them in either order, and their order is the host's.
\<close>

theorem children_sorted:
  assumes "sortContract sortFn" and "i < length linked"
  shows "sorted_wrt
           (\<lambda>a b. \<not> falsy (birthOf (persons (assemble sortFn linked)) b) \<longrightarrow>
                    \<not> falsy (birthOf (persons (assemble sortFn linked)) a)
                    \<and> the (birthOf (persons (assemble sortFn linked)) a)
                        \<le> the (birthOf (persons (assemble sortFn linked)) b))
           (children (snd (persons (assemble sortFn linked) ! i)))
       \<and> mset (children (snd (persons (assemble sortFn linked) ! i)))
           = mset (children (snd (linked ! i)))"
proof -
  let ?cmp = "\<lambda>a b. compareBirth (birthOf linked a) (birthOf linked b)"
  let ?R = "\<lambda>a b. \<not> falsy (birthOf linked b) \<longrightarrow>
                    \<not> falsy (birthOf linked a) \<and> the (birthOf linked a) \<le> the (birthOf linked b)"
  have ch: "children (snd (persons (assemble sortFn linked) ! i))
              = sortFn ?cmp (children (snd (linked ! i)))"
    using assms(2) by (simp add: persons_assemble children_sortChildren)
  have s: "sorted_wrt ?R (sortFn ?cmp (children (snd (linked ! i))))"
    using assms(1)
  proof (rule sortContract_sorted)
    show "?R a c" if "?R a b" "?R b c" for a b c
      using that by auto
    show "?R a b" if "?cmp a b < 0" for a b
      using that by (auto simp: compareBirth_def split: if_splits)
    show "?R b a" if "0 < ?cmp a b" for a b
      using that by (auto simp: compareBirth_def split: if_splits)
    show "?R a b \<and> ?R b a" if "?cmp a b = 0" for a b
      using that by (auto simp: compareBirth_def split: if_splits)
  qed
  show ?thesis
    unfolding ch using s assms(1)
    by (simp add: persons_assemble birthOf_sortChildren sortContract_mset)
qed

lemma fourChildren_linked:
  "map (\<lambda>(k, p). (k, children p)) (secondPass (firstPass utc fourChildren)) =
     [(JStr ''7'', [JStr ''Carl'', JStr ''Dora'', JStr ''Emil'', JStr ''Frieda'']),
      (JStr ''Carl'', []), (JStr ''Dora'', []), (JStr ''Emil'', []), (JStr ''Frieda'', [])]"
  by (simp add: fourChildren_def tree_eval date_eval)

lemma fourChildren_tree:
  "map (\<lambda>(k, p). (k, children p, getBirthDate p))
     (persons (assemble sortBy (secondPass (firstPass utc fourChildren)))) =
     [(JStr ''7'', [JStr ''Frieda'', JStr ''Dora'', JStr ''Carl'', JStr ''Emil''], None),
      (JStr ''Carl'', [], None), (JStr ''Dora'', [], Some 1902), (JStr ''Emil'', [], None),
      (JStr ''Frieda'', [], Some 1899)]"
  by (simp add: fourChildren_def tree_eval date_eval)

text \<open>
  C8, witness: the second pass finds the children Carl, Dora (born 1902), Emil and
  Frieda (born 1899) of the first person, in this order; after assembly with the
  insertion sort \<open>sortBy\<close> they are Frieda, Dora, Carl, Emil.
\<close>

theorem children_sorted_witness:
  "sortContract (sortBy :: jsval arraySort)
   \<and> 0 < length (secondPass (firstPass utc fourChildren))
   \<and> map (\<lambda>(k, p). (k, children p)) (secondPass (firstPass utc fourChildren)) =
     [(JStr ''7'', [JStr ''Carl'', JStr ''Dora'', JStr ''Emil'', JStr ''Frieda'']),
      (JStr ''Carl'', []), (JStr ''Dora'', []), (JStr ''Emil'', []), (JStr ''Frieda'', [])]
   \<and> map (\<lambda>(k, p). (k, children p, getBirthDate p))
       (persons (assemble sortBy (secondPass (firstPass utc fourChildren)))) =
     [(JStr ''7'', [JStr ''Frieda'', JStr ''Dora'', JStr ''Carl'', JStr ''Emil''], None),
      (JStr ''Carl'', [], None), (JStr ''Dora'', [], Some 1902), (JStr ''Emil'', [], None),
      (JStr ''Frieda'', [], Some 1899)]"
proof -
  have l: "0 < length (secondPass (firstPass utc fourChildren))"
    using arg_cong [OF fourChildren_linked, of length] by simp
  show ?thesis
    using children_sorted [OF sortBy_contract l] sortBy_contract l fourChildren_linked
      fourChildren_tree
    by simp
qed

text \<open>
  C8, as stated, fails for a child whose birth date is the string \<open>0000\<close>: its birth year
  is extracted as 0, and it is placed after its sibling born 1900, by either insertion
  sort.  It also fails for the children without birth year: Carl and Emil, found in this
  order, are left in it by \<open>sortBy\<close> and end as Emil, Carl with \<open>sortByBackward\<close>.
\<close>

theorem children_year_zero_last:
  "map (\<lambda>(k, p). (k, children p, getBirthDate p)) (persons (buildTree utc sortBy yearZero)) =
     [(JStr ''7'', [JStr ''Berta'', JStr ''Anna''], None),
      (JStr ''Anna'', [], Some 0), (JStr ''Berta'', [], Some 1900)]
   \<and> map (\<lambda>(k, p). (k, children p, getBirthDate p))
       (persons (buildTree utc sortByBackward yearZero)) =
     [(JStr ''7'', [JStr ''Berta'', JStr ''Anna''], None),
      (JStr ''Anna'', [], Some 0), (JStr ''Berta'', [], Some 1900)]
   \<and> map (\<lambda>(k, p). (k, children p)) (secondPass (firstPass utc fourChildren)) =
     [(JStr ''7'', [JStr ''Carl'', JStr ''Dora'', JStr ''Emil'', JStr ''Frieda'']),
      (JStr ''Carl'', []), (JStr ''Dora'', []), (JStr ''Emil'', []), (JStr ''Frieda'', [])]
   \<and> map (\<lambda>(k, p). (k, children p, getBirthDate p))
       (persons (buildTree utc sortByBackward fourChildren)) =
     [(JStr ''7'', [JStr ''Frieda'', JStr ''Dora'', JStr ''Emil'', JStr ''Carl''], None),
      (JStr ''Carl'', [], None), (JStr ''Dora'', [], Some 1902), (JStr ''Emil'', [], None),
      (JStr ''Frieda'', [], Some 1899)]"
  by (simp add: yearZero_def fourChildren_def tree_eval sortByBackward_def date_eval parse_eval)

section \<open>Ranking of the search results\<close>

lemma compareChars_sign: "compareChars a b < 0 \<longleftrightarrow> 0 < compareChars b a"
  by (induction a b rule: compareChars.induct) auto

lemma compareChars_trans:
  "compareChars a b \<le> 0 \<Longrightarrow> compareChars b c \<le> 0 \<Longrightarrow> compareChars a c \<le> 0"
proof (induction a arbitrary: b c)
  case Nil
  then show ?case by (cases c) auto
next
  case (Cons x xs)
  then obtain y ys where b: "b = y # ys" by (cases b) auto
  with Cons.prems obtain z zs where c: "c = z # zs" by (cases c) auto
  show ?case
    using Cons.prems Cons.IH [of ys zs] unfolding b c
    by (auto split: if_splits)
qed

lemma localeCompare_sign: "localeCompare a b < 0 \<longleftrightarrow> 0 < localeCompare b a"
  by (simp add: localeCompare_def compareChars_sign)

lemma localeCompare_trans:
  "localeCompare a b \<le> 0 \<Longrightarrow> localeCompare b c \<le> 0 \<Longrightarrow> localeCompare a c \<le> 0"
  unfolding localeCompare_def by (rule compareChars_trans)

lemma compareMatches_sorted:
  assumes contract: "sortContract sortFn"
    and sign: "\<And>a b. lc a b < 0 \<longleftrightarrow> 0 < lc b a"
    and trans: "\<And>a b c. lc a b \<le> 0 \<Longrightarrow> lc b c \<le> 0 \<Longrightarrow> lc a c \<le> 0"
  shows "sorted_wrt (\<lambda>a b. compareMatches lc q a b \<le> 0) (sortFn (compareMatches lc q) xs)"
  using contract
proof (rule sortContract_sorted)
  fix a b c :: searchMatch
  have ge: "lc x y \<le> 0 \<or> lc y x < 0" for x y
    using sign [of y x] by linarith
  have after: "compareMatches lc q b a \<le> 0" if "\<not> compareMatches lc q a b < 0" for a b
    using that ge [of "name (person b)" "name (person a)"]
    by (cases "matchReason a"; cases "matchReason b")
       (auto simp: compareMatches_def Let_def split: if_splits)
  show "compareMatches lc q a b \<le> 0" if "compareMatches lc q a b < 0"
    using that by simp
  show "compareMatches lc q b a \<le> 0" if "0 < compareMatches lc q a b"
    using that by (intro after) simp
  show "compareMatches lc q a b \<le> 0 \<and> compareMatches lc q b a \<le> 0"
    if "compareMatches lc q a b = 0"
    using that after [of a b] by simp
  show "compareMatches lc q a c \<le> 0"
    if "compareMatches lc q a b \<le> 0" "compareMatches lc q b c \<le> 0"
    using that trans [of "name (person a)" "name (person b)" "name (person c)"]
    by (cases "matchReason a"; cases "matchReason b"; cases "matchReason c")
       (auto simp: compareMatches_def Let_def split: if_splits)
qed

text \<open>
  C9, on every host whose array sort meets \<open>sortContract\<close> (as the insertion sort
  \<open>sortBy\<close> does).  In the results of a search, for any registry and query, no spouse
  match comes
  before a name match; among the matches of one kind, none whose lower-cased name does
  not start with the lower-cased query comes before one whose name does; and two matches
  of one kind that both start with the query, or both do not, are in the order that the
  collation gives their names (case-insensitive lexicographic order).
\<close>

theorem performSearch_ranking:
  assumes "sortContract sortFn"
  shows
  "sorted_wrt
     (\<lambda>a b. (matchReason a = Spouse \<longrightarrow> matchReason b = Spouse)
        \<and> (matchReason a = matchReason b \<longrightarrow>
             (startsWith (toLowerCase (name (person b))) (toLowerCase query) \<longrightarrow>
              startsWith (toLowerCase (name (person a))) (toLowerCase query))
             \<and> (startsWith (toLowerCase (name (person a))) (toLowerCase query)
                  = startsWith (toLowerCase (name (person b))) (toLowerCase query) \<longrightarrow>
                localeCompare (name (person a)) (name (person b)) \<le> 0)))
     (performSearch sortFn localeCompare ps query)"
proof -
  let ?q = "toLowerCase query"
  let ?ms = "List.map_filter (matchOf ?q) (values' ps)"
  have "sorted_wrt (\<lambda>a b. compareMatches localeCompare ?q a b \<le> 0)
          (sortFn (compareMatches localeCompare ?q) ?ms)"
    using assms localeCompare_sign localeCompare_trans by (rule compareMatches_sorted)
  then have "sorted_wrt (\<lambda>a b. compareMatches localeCompare ?q a b \<le> 0)
          (performSearch sortFn localeCompare ps query)"
    by (simp add: performSearch_def Let_def sorted_wrt_take)
  then show ?thesis
  proof (rule sorted_wrt_mono_rel [rotated])
    fix a b :: searchMatch
    assume "compareMatches localeCompare ?q a b \<le> 0"
    then show "(matchReason a = Spouse \<longrightarrow> matchReason b = Spouse)
        \<and> (matchReason a = matchReason b \<longrightarrow>
             (startsWith (toLowerCase (name (person b))) ?q \<longrightarrow>
              startsWith (toLowerCase (name (person a))) ?q)
             \<and> (startsWith (toLowerCase (name (person a))) ?q
                  = startsWith (toLowerCase (name (person b))) ?q \<longrightarrow>
                localeCompare (name (person a)) (name (person b)) \<le> 0))"
      by (cases "matchReason a"; cases "matchReason b")
         (auto simp: compareMatches_def Let_def split: if_splits)
  qed
qed

lemma ottos_search:
  "map (\<lambda>m. (name (person m), matchReason m, matchedSpouse m))
     (performSearch sortBy localeCompare (persons (buildTree utc sortBy ottos)) ''OTTO'')
   = [(''otto Adam'', Name, None), (''Otto Braun'', Name, None), (''Lotto Maier'', Name, None),
      (''Anna Schmidt'', Spouse, Some ''Otto Schmidt'')]"
  by code_simp

text \<open>
  C9, witness: the query \<open>OTTO\<close> finds otto Adam and Otto Braun (names starting with
  the query), Lotto Maier (name containing it) and Anna Schmidt (by her spouse Otto
  Schmidt), in this order.
\<close>

theorem performSearch_ranking_witness:
  "map (\<lambda>m. (name (person m), matchReason m, matchedSpouse m))
     (performSearch sortBy localeCompare (persons (buildTree utc sortBy ottos)) ''OTTO'')
   = [(''otto Adam'', Name, None), (''Otto Braun'', Name, None), (''Lotto Maier'', Name, None),
      (''Anna Schmidt'', Spouse, Some ''Otto Schmidt'')]"
  using performSearch_ranking
      [OF sortBy_contract, where ps = "persons (buildTree utc sortBy ottos)"
         and query = "''OTTO''"]
    ottos_search
  by simp

end
